theory Spec2Isabelle
  imports Complex_Main
begin

section \<open>The PDF annotation editor (src/features/third/index.tsx)\<close>

text \<open>
  A shallow embedding of the component \<^verbatim>\<open>PDFEditor\<close>: its annotation type, the
  component state held by the \<^verbatim>\<open>useState\<close> hooks, the handlers that change the list
  of saved annotations, the compositor \<^verbatim>\<open>applyAnnotationToPage\<close>, the colour parser
  \<^verbatim>\<open>hexToRgb\<close> and the two render paths \<^verbatim>\<open>updatePdfPreview\<close> and
  \<^verbatim>\<open>downloadPdf\<close>.

  JavaScript strings are modelled as \<^typ>\<open>string\<close>, byte buffers as lists of
  \<^typ>\<open>char\<close> (a HOL character is one byte), and the unit-interval colour channels
  and opacities handed to pdf-lib as exact rationals. Coordinates are JavaScript numbers
  (doubles); the model takes them to be integers, which is what the number inputs
  deliver, and computes with them exactly. That agrees with double arithmetic as long as
  operands and result are safe integers (\<open>safeInteger\<close> below); a statement about a
  computed coordinate carries that hypothesis.
\<close>

subsection \<open>Data model\<close>

type_synonym bytes = "char list"

datatype annotation_type = Text | Highlight | Underline | Comment | Signature

record position =
  pos_x :: int
  pos_y :: int
  pos_width :: int
  pos_height :: int

text \<open>\<^verbatim>\<open>Number.isSafeInteger\<close>: an integer of magnitude below \<open>2\<^sup>5\<^sup>3\<close>.\<close>

definition safeInteger :: "int \<Rightarrow> bool" where
  "safeInteger v = (\<bar>v\<bar> \<le> 9007199254740991)"

text \<open>The type \<^verbatim>\<open>Annotation\<close>; an optional field that is \<^verbatim>\<open>undefined\<close> is \<^const>\<open>None\<close>.\<close>

record annotation =
  ann_id :: string
  ann_type :: annotation_type
  ann_content :: string
  ann_position :: position
  ann_color :: "string option"
  ann_imageData :: "string option"

text \<open>
  JavaScript truthiness of a string that may be \<^verbatim>\<open>null\<close> or \<^verbatim>\<open>undefined\<close>:
  only a present, non-empty string is truthy.
\<close>

fun truthy :: "string option \<Rightarrow> bool" where
  "truthy None = False"
| "truthy (Some s) = (s \<noteq> [])"

subsection \<open>hexToRgb\<close>

record rgb255 =
  rgb_r :: nat
  rgb_g :: nat
  rgb_b :: nat

text \<open>
  The character class \<^verbatim>\<open>[a-f\d]\<close> under the flag \<^verbatim>\<open>i\<close>: an ASCII digit or a
  letter a to f in either case.
\<close>

definition isHexDigit :: "char \<Rightarrow> bool" where
  "isHexDigit c = (c \<in> set ''0123456789abcdefABCDEF'')"

text \<open>The value of one digit as \<^verbatim>\<open>parseInt(_, 16)\<close> reads it.\<close>

definition hexDigitVal :: "char \<Rightarrow> nat" where
  "hexDigitVal c =
     (if c \<in> set ''0123456789'' then of_char c - 48
      else if c \<in> set ''abcdef'' then of_char c - 87
      else if c \<in> set ''ABCDEF'' then of_char c - 55
      else 0)"

text \<open>
  \<^verbatim>\<open>parseInt(s, 16)\<close> on a string of hex digits (the only strings the capture groups
  hand to it): the digits are accumulated from the left.
\<close>

definition parseInt16 :: "string \<Rightarrow> nat" where
  "parseInt16 s = foldl (\<lambda>acc c. 16 * acc + hexDigitVal c) 0 s"

text \<open>
  \<^verbatim>\<open>/^#?([a-f\d]{2})([a-f\d]{2})([a-f\d]{2})$/i.exec(hex)\<close>: the anchors make the
  match cover the whole string; the optional \<^verbatim>\<open>#\<close> is taken when the string starts
  with one (leaving it would need \<^verbatim>\<open>#\<close> to be a hex digit); what remains must be
  exactly six hex digits, returned as the three capture groups.
\<close>

definition hexRegexExec :: "string \<Rightarrow> (string \<times> string \<times> string) option" where
  "hexRegexExec hex =
     (let body = (case hex of [] \<Rightarrow> [] | c # cs \<Rightarrow> if c = CHR ''#'' then cs else hex)
      in if length body = 6 \<and> list_all isHexDigit body
         then Some (take 2 body, take 2 (drop 2 body), drop 4 body)
         else None)"

definition hexToRgb :: "string \<Rightarrow> rgb255" where
  "hexToRgb hex =
     (case hexRegexExec hex of
        Some (r1, r2, r3) \<Rightarrow> \<lparr>rgb_r = parseInt16 r1, rgb_g = parseInt16 r2, rgb_b = parseInt16 r3\<rparr>
      | None \<Rightarrow> \<lparr>rgb_r = 0, rgb_g = 0, rgb_b = 0\<rparr>)"

text \<open>
  The shape the specification describes for \<^verbatim>\<open>parseColor\<close>, written from its words:
  an optional leading \<^verbatim>\<open>#\<close> and exactly six hex digits.
\<close>

definition sixHexDigits :: "string \<Rightarrow> bool" where
  "sixHexDigits ds = (length ds = 6 \<and> list_all isHexDigit ds)"

subsection \<open>pdf-lib and the browser, as far as the component uses them\<close>

text \<open>
  pdf-lib is a dependency, not code of this repository. A page is modelled by the
  content it was loaded with and the drawing calls made on it since, in call order
  (each pdf-lib drawing call appends its operators to the page's content stream); a
  document by its pages, the fonts and images embedded into it, and the modification
  date of its metadata, in whole seconds as a PDF date string holds it.
\<close>

text \<open>The value of \<^verbatim>\<open>rgb(r, g, b)\<close>, channels in the unit interval.\<close>

datatype rgb_color = RGB rat rat rat

datatype font = Helvetica

datatype pdf_image = PDFImage bytes

text \<open>
  The drawing calls with the options the component passes:
  \<^item> \<open>DrawText text x y size font color\<close>
  \<^item> \<open>DrawRectangle x y width height color opacity\<close>
  \<^item> \<open>DrawLine start_x start_y end_x end_y thickness color opacity\<close>
  \<^item> \<open>DrawImage image x y width height opacity\<close>
\<close>

datatype draw_op =
    DrawText string int int nat font rgb_color
  | DrawRectangle int int int int rgb_color rat
  | DrawLine int int int int nat rgb_color rat
  | DrawImage pdf_image int int nat nat rat

record pdf_page =
  original :: bytes
  ops :: "draw_op list"

record pdf_doc =
  pages :: "pdf_page list"
  fonts :: "font list"
  images :: "pdf_image list"
  modificationDate :: nat

text \<open>
  What the component cannot compute itself is a parameter: the parser behind
  \<^verbatim>\<open>PDFDocument.load\<close> (\<^const>\<open>None\<close> when it throws), the serialiser behind
  \<^verbatim>\<open>pdfDoc.save\<close>, whether \<^verbatim>\<open>embedPng\<close> accepts a byte buffer as a PNG,
  the browser's base64 decoder \<^verbatim>\<open>atob\<close> (\<^const>\<open>None\<close> when it throws), and
  whether the encoding of the Helvetica font (WinAnsi) has every character of a text.
\<close>

record pdflib =
  parsePdf :: "bytes \<Rightarrow> pdf_doc option"
  PDFDocument_save :: "pdf_doc \<Rightarrow> bytes"
  parsePng :: "bytes \<Rightarrow> bool"
  atob :: "string \<Rightarrow> bytes option"
  canEncodeText :: "string \<Rightarrow> bool"

text \<open>The exceptions the modelled calls can throw.\<close>

datatype error = DecodeError | TypeError | InvalidCharacterError | EmbedError | EncodingError

text \<open>
  \<^verbatim>\<open>PDFDocument.load(existingPdfBytes)\<close>. The component passes no options, so
  pdf-lib updates the metadata of the document it has parsed (its option
  \<^verbatim>\<open>updateMetadata\<close> is on by default): the modification date becomes
  \<^verbatim>\<open>new Date()\<close>. The reading of the clock at the call is the parameter \<open>date\<close>.
\<close>

definition PDFDocument_load :: "pdflib \<Rightarrow> nat \<Rightarrow> bytes \<Rightarrow> pdf_doc option" where
  "PDFDocument_load lib date existingPdfBytes =
     (case parsePdf lib existingPdfBytes of
        None \<Rightarrow> None
      | Some pdfDoc \<Rightarrow> Some (pdfDoc\<lparr>modificationDate := date\<rparr>))"

text \<open>What \<^verbatim>\<open>console.error(message, error)\<close> has printed so far.\<close>

type_synonym console_log = "(string \<times> error) list"

text \<open>
  \<^verbatim>\<open>pdfDoc.getPages()[0]\<close>: a reference to the first page, or \<^verbatim>\<open>undefined\<close>
  (\<^const>\<open>None\<close>) for a document without pages.
\<close>

definition getFirstPage :: "pdf_doc \<Rightarrow> nat option" where
  "getFirstPage pdfDoc = (if pages pdfDoc = [] then None else Some 0)"

text \<open>
  A drawing call on a page reference: a method call on \<^verbatim>\<open>undefined\<close> throws a
  TypeError; on a page the call is appended to what was drawn on it. The component
  hands the rectangle, line and image calls numbers, colour channels and opacities in
  range, so on a page these succeed.
\<close>

definition drawOnPage :: "nat option \<Rightarrow> draw_op \<Rightarrow> pdf_doc \<Rightarrow> error + pdf_doc" where
  "drawOnPage page call pdfDoc =
     (case page of
        None \<Rightarrow> Inl TypeError
      | Some i \<Rightarrow>
          Inr (pdfDoc\<lparr>pages :=
            (pages pdfDoc)[i := (pages pdfDoc ! i)\<lparr>ops := ops (pages pdfDoc ! i) @ [call]\<rparr>]\<rparr>))"

text \<open>
  \<^verbatim>\<open>page.drawText(text, {x, y, size, font, color})\<close>: pdf-lib encodes the text
  with the font before it draws anything, and throws when the font's encoding lacks a
  character of the text.
\<close>

definition drawText ::
  "pdflib \<Rightarrow> nat option \<Rightarrow> string \<Rightarrow> int \<Rightarrow> int \<Rightarrow> nat \<Rightarrow> font \<Rightarrow> rgb_color \<Rightarrow> pdf_doc
     \<Rightarrow> error + pdf_doc" where
  "drawText lib page txt px py sz fnt col pdfDoc =
     (case page of
        None \<Rightarrow> Inl TypeError
      | Some _ \<Rightarrow>
          if canEncodeText lib txt
          then drawOnPage page (DrawText txt px py sz fnt col) pdfDoc
          else Inl EncodingError)"

text \<open>\<^verbatim>\<open>pdfDoc.embedFont(StandardFonts.Helvetica)\<close>.\<close>

definition embedFont :: "pdf_doc \<Rightarrow> font \<times> pdf_doc" where
  "embedFont pdfDoc = (Helvetica, pdfDoc\<lparr>fonts := fonts pdfDoc @ [Helvetica]\<rparr>)"

text \<open>\<^verbatim>\<open>pdfDoc.embedPng(imageBytes)\<close>: throws on bytes that are no PNG.\<close>

definition embedPng :: "pdflib \<Rightarrow> bytes \<Rightarrow> pdf_doc \<Rightarrow> error + (pdf_image \<times> pdf_doc)" where
  "embedPng lib imageBytes pdfDoc =
     (if parsePng lib imageBytes
      then Inr (PDFImage imageBytes, pdfDoc\<lparr>images := images pdfDoc @ [PDFImage imageBytes]\<rparr>)
      else Inl EmbedError)"

text \<open>\<^verbatim>\<open>s.split(sep)\<close> for a one-character separator.\<close>

fun split_on :: "char \<Rightarrow> string \<Rightarrow> string list" where
  "split_on sep [] = [[]]"
| "split_on sep (c # cs) =
     (if c = sep then [] # split_on sep cs
      else (case split_on sep cs of
              [] \<Rightarrow> [[c]]
            | part # parts \<Rightarrow> (c # part) # parts))"

text \<open>
  \<^verbatim>\<open>Uint8Array.from(atob(imageData.split(',')[1]), c => c.charCodeAt(0))\<close>: without
  a comma the index is out of range, the argument is \<^verbatim>\<open>undefined\<close> and
  \<^verbatim>\<open>atob\<close> decodes the string "undefined".
\<close>

definition signatureImageBytes :: "pdflib \<Rightarrow> string \<Rightarrow> error + bytes" where
  "signatureImageBytes lib imageData =
     (case atob lib (case split_on CHR '','' imageData of
                       _ # payload # _ \<Rightarrow> payload
                     | _ \<Rightarrow> ''undefined'') of
        None \<Rightarrow> Inl InvalidCharacterError
      | Some decoded \<Rightarrow> Inr decoded)"

subsection \<open>applyAnnotationToPage\<close>

text \<open>The body of the \<^verbatim>\<open>try\<close> block of the signature case.\<close>

definition embedSignature ::
  "pdflib \<Rightarrow> annotation \<Rightarrow> string \<Rightarrow> nat option \<Rightarrow> bool \<Rightarrow> pdf_doc \<Rightarrow> error + pdf_doc" where
  "embedSignature lib annotation imageData page isPreview pdfDoc =
     (case signatureImageBytes lib imageData of
        Inl e \<Rightarrow> Inl e
      | Inr imageBytes \<Rightarrow>
          (case page of
             None \<Rightarrow> Inl TypeError
           | Some _ \<Rightarrow>
               (case embedPng lib imageBytes pdfDoc of
                  Inl e \<Rightarrow> Inl e
                | Inr (img, pdfDoc') \<Rightarrow>
                    drawOnPage page
                      (DrawImage img
                         (pos_x (ann_position annotation)) (pos_y (ann_position annotation))
                         150 60 (if isPreview then 7 / 10 else 1))
                      pdfDoc')))"

text \<open>
  The result is the document, or the exception that leaves the function, and the
  console. The page belongs to the document, so drawing on it changes the document.
\<close>

definition applyAnnotationToPage ::
  "pdflib \<Rightarrow> annotation \<Rightarrow> nat option \<Rightarrow> font \<Rightarrow> bool \<Rightarrow> pdf_doc \<Rightarrow> console_log
     \<Rightarrow> (error + pdf_doc) \<times> console_log" where
  "applyAnnotationToPage lib annotation page fnt isPreview pdfDoc con =
     (case ann_type annotation of
        Text \<Rightarrow>
          (drawText lib page (ann_content annotation)
             (pos_x (ann_position annotation)) (pos_y (ann_position annotation))
             12 fnt (if isPreview then RGB 0 0 (1 / 2) else RGB 0 0 0)
             pdfDoc, con)
      | Highlight \<Rightarrow>
          (case ann_color annotation of
             None \<Rightarrow> (Inr pdfDoc, con)
           | Some c \<Rightarrow>
               if c = [] then (Inr pdfDoc, con)
               else
                 let rgbColor = hexToRgb c in
                 (drawOnPage page
                    (DrawRectangle
                       (pos_x (ann_position annotation)) (pos_y (ann_position annotation))
                       (pos_width (ann_position annotation)) (pos_height (ann_position annotation))
                       (RGB (of_nat (rgb_r rgbColor) / 255) (of_nat (rgb_g rgbColor) / 255)
                            (of_nat (rgb_b rgbColor) / 255))
                       (if isPreview then 3 / 10 else 1 / 2))
                    pdfDoc, con))
      | Underline \<Rightarrow>
          (case ann_color annotation of
             None \<Rightarrow> (Inr pdfDoc, con)
           | Some c \<Rightarrow>
               if c = [] then (Inr pdfDoc, con)
               else
                 let rgbColor = hexToRgb c in
                 (drawOnPage page
                    (DrawLine
                       (pos_x (ann_position annotation)) (pos_y (ann_position annotation))
                       (pos_x (ann_position annotation) + pos_width (ann_position annotation))
                       (pos_y (ann_position annotation))
                       2
                       (RGB (of_nat (rgb_r rgbColor) / 255) (of_nat (rgb_g rgbColor) / 255)
                            (of_nat (rgb_b rgbColor) / 255))
                       (if isPreview then 7 / 10 else 1))
                    pdfDoc, con))
      | Comment \<Rightarrow>
          (drawText lib page (ann_content annotation)
             (pos_x (ann_position annotation)) (pos_y (ann_position annotation))
             10 fnt (if isPreview then RGB 0 0 (1 / 2) else RGB 0 0 0)
             pdfDoc, con)
      | Signature \<Rightarrow>
          (case ann_imageData annotation of
             None \<Rightarrow> (Inr pdfDoc, con)
           | Some imageData \<Rightarrow>
               if imageData = [] then (Inr pdfDoc, con)
               else
                 (case embedSignature lib annotation imageData page isPreview pdfDoc of
                    Inl e \<Rightarrow> (Inr pdfDoc, con @ [(''Error embedding signature:'', e)])
                  | Inr pdfDoc' \<Rightarrow> (Inr pdfDoc', con))))"

text \<open>
  \<^verbatim>\<open>for (const ann of annotations) await applyAnnotationToPage(ann, page, font)\<close>:
  the parameter \<^verbatim>\<open>isPreview\<close> takes its default \<^verbatim>\<open>false\<close>; an exception ends
  the loop.
\<close>

fun applyAnnotations ::
  "pdflib \<Rightarrow> annotation list \<Rightarrow> nat option \<Rightarrow> font \<Rightarrow> pdf_doc \<Rightarrow> console_log
     \<Rightarrow> (error + pdf_doc) \<times> console_log" where
  "applyAnnotations lib [] page fnt pdfDoc con = (Inr pdfDoc, con)"
| "applyAnnotations lib (ann # anns) page fnt pdfDoc con =
     (case applyAnnotationToPage lib ann page fnt False pdfDoc con of
        (Inl e, con') \<Rightarrow> (Inl e, con')
      | (Inr pdfDoc', con') \<Rightarrow> applyAnnotations lib anns page fnt pdfDoc' con')"

subsection \<open>Component state\<close>

text \<open>
  The values held by the \<^verbatim>\<open>useState\<close> hooks, and the console. \<^verbatim>\<open>pdfFile\<close> is
  the uploaded file, by its bytes; \<^verbatim>\<open>pdfUrl\<close> is the object URL shown in the preview
  frame, by the bytes of the blob it points to. (\<^verbatim>\<open>isDrawing\<close> only steers the
  canvas strokes and is left out.)
\<close>

record state =
  pdfFile :: "bytes option"
  pdfUrl :: "bytes option"
  annotations :: "annotation list"
  activeTool :: annotation_type
  content :: string
  position :: position
  color :: string
  editingId :: "string option"
  previewMode :: bool
  signatureData :: "string option"
  draggingId :: "string option"
  dragOffset :: "int \<times> int"
  console :: console_log

definition initialState :: state where
  "initialState =
     \<lparr>pdfFile = None, pdfUrl = None, annotations = [], activeTool = Text, content = [],
      position = \<lparr>pos_x = 50, pos_y = 50, pos_width = 100, pos_height = 20\<rparr>,
      color = ''#FFFF00'', editingId = None, previewMode = False, signatureData = None,
      draggingId = None, dragOffset = (0, 0), console = []\<rparr>"

subsection \<open>updatePdfPreview and downloadPdf\<close>

text \<open>
  The lines both render paths start with: load the document, take its first page, embed
  the font, apply the saved annotations.
\<close>

definition loadAndAnnotate ::
  "pdflib \<Rightarrow> nat \<Rightarrow> bytes \<Rightarrow> annotation list \<Rightarrow> console_log
     \<Rightarrow> (error + (nat option \<times> font \<times> pdf_doc)) \<times> console_log" where
  "loadAndAnnotate lib date existingPdfBytes anns con =
     (case PDFDocument_load lib date existingPdfBytes of
        None \<Rightarrow> (Inl DecodeError, con)
      | Some pdfDoc \<Rightarrow>
          let page = getFirstPage pdfDoc;
              (helveticaFont, pdfDoc1) = embedFont pdfDoc
          in (case applyAnnotations lib anns page helveticaFont pdfDoc1 con of
                (Inl e, con') \<Rightarrow> (Inl e, con')
              | (Inr pdfDoc2, con') \<Rightarrow> (Inr (page, helveticaFont, pdfDoc2), con')))"

text \<open>The annotation built for the preview; \<^verbatim>\<open>signatureData || undefined\<close>.\<close>

definition previewAnnotation :: "state \<Rightarrow> annotation" where
  "previewAnnotation s =
     \<lparr>ann_id = ''preview'', ann_type = activeTool s, ann_content = content s,
      ann_position = position s, ann_color = Some (color s),
      ann_imageData = (if truthy (signatureData s) then signatureData s else None)\<rparr>"

text \<open>\<^verbatim>\<open>previewMode && (content || activeTool === 'signature')\<close>.\<close>

definition previewShown :: "state \<Rightarrow> bool" where
  "previewShown s = (previewMode s \<and> (content s \<noteq> [] \<or> activeTool s = Signature))"

text \<open>
  The \<^verbatim>\<open>try\<close> block of \<^verbatim>\<open>updatePdfPreview\<close> up to the call of
  \<^verbatim>\<open>pdfDoc.save()\<close>: the document that is saved, or the exception thrown.
\<close>

definition previewDocument ::
  "pdflib \<Rightarrow> nat \<Rightarrow> bytes \<Rightarrow> state \<Rightarrow> (error + pdf_doc) \<times> console_log" where
  "previewDocument lib date existingPdfBytes s =
     (case loadAndAnnotate lib date existingPdfBytes (annotations s) (console s) of
        (Inl e, con) \<Rightarrow> (Inl e, con)
      | (Inr (page, helveticaFont, pdfDoc), con) \<Rightarrow>
          if previewShown s
          then applyAnnotationToPage lib (previewAnnotation s) page helveticaFont True pdfDoc con
          else (Inr pdfDoc, con))"

text \<open>
  \<^verbatim>\<open>updatePdfPreview\<close>, run at the clock reading \<open>date\<close>. The result is how the
  promise of the async function settles: \<^const>\<open>Inl\<close> would be a rejection that
  reaches the caller, \<^const>\<open>Inr\<close> is the component state after normal completion.
  Every exception of the body is caught and printed.
\<close>

definition updatePdfPreview :: "pdflib \<Rightarrow> nat \<Rightarrow> state \<Rightarrow> error + state" where
  "updatePdfPreview lib date s =
     (case pdfFile s of
        None \<Rightarrow> Inr s
      | Some existingPdfBytes \<Rightarrow>
          (case previewDocument lib date existingPdfBytes s of
             (Inl e, con) \<Rightarrow>
               Inr (s\<lparr>console := con @ [(''Error updating PDF preview:'', e)]\<rparr>)
           | (Inr pdfDoc, con) \<Rightarrow>
               Inr (s\<lparr>pdfUrl := Some (PDFDocument_save lib pdfDoc), console := con\<rparr>)))"

text \<open>
  \<^verbatim>\<open>downloadPdf\<close>, run at the clock reading \<open>date\<close>, with
  \<^verbatim>\<open>downloadRef.current\<close> as a parameter (the anchor exists when it has been
  rendered). It sets no state. The result is \<^const>\<open>Inl\<close> for an
  exception that leaves the function (nothing is caught here), \<^term>\<open>Inr None\<close> for
  the early return, \<^term>\<open>Inr (Some bytes)\<close> when the anchor is clicked with the
  bytes behind its URL; and the console.
\<close>

definition downloadPdf ::
  "pdflib \<Rightarrow> nat \<Rightarrow> bool \<Rightarrow> state \<Rightarrow> (error + bytes option) \<times> console_log" where
  "downloadPdf lib date downloadRefCurrent s =
     (case pdfFile s of
        None \<Rightarrow> (Inr None, console s)
      | Some existingPdfBytes \<Rightarrow>
          if \<not> downloadRefCurrent then (Inr None, console s)
          else
            (case loadAndAnnotate lib date existingPdfBytes (annotations s) (console s) of
               (Inl e, con) \<Rightarrow> (Inl e, con)
             | (Inr (page, helveticaFont, pdfDoc), con) \<Rightarrow>
                 (Inr (Some (PDFDocument_save lib pdfDoc)), con)))"

subsection \<open>The handlers\<close>

text \<open>
  A handler is modelled as one step on the state it starts in. A handler, or the effect,
  that calls \<^verbatim>\<open>updatePdfPreview()\<close> does not await it, and calls the function
  created by the render it belongs to: that function reads the state of that render
  (\<open>closure\<close>), also while setters of the handler are pending. What the call sets, the
  preview URL and the console output, lands in the current state \<open>s\<close>; a rejection
  of the ignored promise would change nothing. The model completes such a call within
  the step that makes it; in the browser the calls run asynchronously and a later call
  may finish before an earlier one.
\<close>

definition callUpdatePdfPreview :: "pdflib \<Rightarrow> nat \<Rightarrow> state \<Rightarrow> state \<Rightarrow> state" where
  "callUpdatePdfPreview lib date closure s =
     (case updatePdfPreview lib date (closure\<lparr>pdfUrl := pdfUrl s, console := console s\<rparr>) of
        Inl _ \<Rightarrow> s
      | Inr rendered \<Rightarrow> s\<lparr>pdfUrl := pdfUrl rendered, console := console rendered\<rparr>)"

definition handlePdfUpload :: "bytes \<Rightarrow> state \<Rightarrow> state" where
  "handlePdfUpload file s =
     s\<lparr>pdfFile := Some file, pdfUrl := Some file, annotations := [], editingId := None,
       previewMode := False, signatureData := None\<rparr>"

text \<open>
  Dragging; the pointer coordinates \<^verbatim>\<open>clientX\<close> and \<^verbatim>\<open>clientY\<close> are taken to
  be integers, like the coordinates of the annotations.
\<close>

definition startDragging :: "int \<Rightarrow> int \<Rightarrow> string \<Rightarrow> state \<Rightarrow> state" where
  "startDragging clientX clientY ident s =
     (case find (\<lambda>ann. ann_id ann = ident) (annotations s) of
        None \<Rightarrow> s
      | Some annotation \<Rightarrow>
          s\<lparr>draggingId := Some ident,
            dragOffset := (clientX - pos_x (ann_position annotation),
                           clientY - pos_y (ann_position annotation))\<rparr>)"

definition handleDrag :: "int \<Rightarrow> int \<Rightarrow> state \<Rightarrow> state" where
  "handleDrag clientX clientY s =
     (if \<not> truthy (draggingId s) then s
      else s\<lparr>annotations :=
        map (\<lambda>ann.
               if Some (ann_id ann) = draggingId s
               then ann\<lparr>ann_position := (ann_position ann)
                      \<lparr>pos_x := clientX - fst (dragOffset s),
                       pos_y := clientY - snd (dragOffset s)\<rparr>\<rparr>
               else ann)
            (annotations s)\<rparr>)"

definition endDragging :: "pdflib \<Rightarrow> nat \<Rightarrow> state \<Rightarrow> state" where
  "endDragging lib date s = callUpdatePdfPreview lib date s (s\<lparr>draggingId := None\<rparr>)"

definition startEditing :: "string \<Rightarrow> state \<Rightarrow> state" where
  "startEditing ident s =
     (case find (\<lambda>ann. ann_id ann = ident) (annotations s) of
        None \<Rightarrow> s
      | Some annotation \<Rightarrow>
          s\<lparr>editingId := Some ident,
            activeTool := ann_type annotation,
            content := ann_content annotation,
            position := ann_position annotation,
            color := (case ann_color annotation of
                        None \<Rightarrow> color s
                      | Some c \<Rightarrow> if c = [] then color s else c),
            signatureData := (if truthy (ann_imageData annotation)
                              then ann_imageData annotation else signatureData s),
            previewMode := True\<rparr>)"

text \<open>
  \<^verbatim>\<open>cancelEditing\<close>, called in the render \<open>closure\<close> on the state \<open>s\<close> (the
  Cancel button calls it with both the same; \<^verbatim>\<open>saveAnnotation\<close> and
  \<^verbatim>\<open>deleteAnnotation\<close> call it after their own setter).
\<close>

definition cancelEditing :: "pdflib \<Rightarrow> nat \<Rightarrow> state \<Rightarrow> state \<Rightarrow> state" where
  "cancelEditing lib date closure s =
     callUpdatePdfPreview lib date closure
       (s\<lparr>editingId := None, content := [], signatureData := None, previewMode := False\<rparr>)"

text \<open>\<^verbatim>\<open>deleteAnnotation\<close>; its two renders read the clock at \<open>date1\<close> and \<open>date2\<close>.\<close>

definition deleteAnnotation :: "pdflib \<Rightarrow> string \<Rightarrow> nat \<Rightarrow> nat \<Rightarrow> state \<Rightarrow> state" where
  "deleteAnnotation lib ident date1 date2 s =
     (let s1 = s\<lparr>annotations := filter (\<lambda>ann. ann_id ann \<noteq> ident) (annotations s)\<rparr>;
          s2 = (if editingId s = Some ident then cancelEditing lib date1 s s1 else s1)
      in callUpdatePdfPreview lib date2 s s2)"

text \<open>
  \<^verbatim>\<open>saveAnnotation\<close>, with the string of \<^verbatim>\<open>Date.now().toString()\<close> as the
  parameter \<open>now\<close>.
\<close>

definition newAnnotation :: "string \<Rightarrow> state \<Rightarrow> annotation" where
  "newAnnotation now s =
     \<lparr>ann_id = (case editingId s of
                  None \<Rightarrow> now
                | Some e \<Rightarrow> if e = [] then now else e),
      ann_type = activeTool s,
      ann_content = (if activeTool s = Signature then ''Signature'' else content s),
      ann_position = position s,
      ann_color = (if activeTool s \<in> set [Highlight, Underline] then Some (color s) else None),
      ann_imageData = (if activeTool s = Signature
                       then (if truthy (signatureData s) then signatureData s else None)
                       else None)\<rparr>"

definition saveAnnotation :: "pdflib \<Rightarrow> string \<Rightarrow> nat \<Rightarrow> state \<Rightarrow> state" where
  "saveAnnotation lib now date s =
     (if (content s = [] \<and> activeTool s \<noteq> Signature) \<or> pdfFile s = None then s
      else
        cancelEditing lib date s
          (s\<lparr>annotations :=
             (if truthy (editingId s)
              then map (\<lambda>ann. if Some (ann_id ann) = editingId s then newAnnotation now s else ann)
                     (annotations s)
              else annotations s @ [newAnnotation now s])\<rparr>))"

text \<open>
  The Save button, the only caller of \<^verbatim>\<open>saveAnnotation\<close>: it is rendered once
  a preview URL exists and in preview mode only, and it is disabled for the signature
  tool while no signature has been drawn
  (\<^verbatim>\<open>disabled={activeTool === 'signature' && !signatureData}\<close>); a click on a
  disabled button calls no handler.
\<close>

definition clickSave :: "pdflib \<Rightarrow> string \<Rightarrow> nat \<Rightarrow> state \<Rightarrow> state" where
  "clickSave lib now date s =
     (if pdfUrl s \<noteq> None \<and> previewMode s \<and>
         \<not> (activeTool s = Signature \<and> \<not> truthy (signatureData s))
      then saveAnnotation lib now date s
      else s)"

subsection \<open>Runs of the component\<close>

text \<open>
  What can happen to the component: the handlers above, the inline handlers of the
  toolbar, the inputs and the canvas, and the effect that calls \<^verbatim>\<open>updatePdfPreview\<close>.
  The number inputs deliver \<^verbatim>\<open>parseInt(value) || 0\<close>, an integer. An event that
  renders carries the clock reading of each render. The controls exist once a file has
  been uploaded; the steps do not ask for that, so the runs of the model include those
  of the browser.
\<close>

datatype event =
    HandlePdfUpload bytes
  | SelectTool annotation_type
  | ChangeContent string
  | ChangeColor string
  | ChangeX int
  | ChangeY int
  | ChangeWidth int
  | ChangeHeight int
  | EndDrawing string
  | ClearSignature
  | ClickPreview
  | ClickSave string nat
  | CancelEditing nat
  | StartEditing string
  | DeleteAnnotation string nat nat
  | StartDragging int int string
  | HandleDrag int int
  | EndDragging nat
  | UpdatePdfPreview nat

fun step :: "pdflib \<Rightarrow> state \<Rightarrow> event \<Rightarrow> state" where
  "step lib s (HandlePdfUpload file) = handlePdfUpload file s"
| "step lib s (SelectTool tool) = s\<lparr>activeTool := tool, previewMode := False, editingId := None\<rparr>"
| "step lib s (ChangeContent v) = s\<lparr>content := v\<rparr>"
| "step lib s (ChangeColor v) = s\<lparr>color := v\<rparr>"
| "step lib s (ChangeX v) =
     s\<lparr>position := (position s)\<lparr>pos_x := v\<rparr>,
       previewMode := (if content s \<noteq> [] \<or> activeTool s = Signature then True else previewMode s)\<rparr>"
| "step lib s (ChangeY v) =
     s\<lparr>position := (position s)\<lparr>pos_y := v\<rparr>,
       previewMode := (if content s \<noteq> [] \<or> activeTool s = Signature then True else previewMode s)\<rparr>"
| "step lib s (ChangeWidth v) =
     s\<lparr>position := (position s)\<lparr>pos_width := v\<rparr>,
       previewMode := (if content s \<noteq> [] then True else previewMode s)\<rparr>"
| "step lib s (ChangeHeight v) =
     s\<lparr>position := (position s)\<lparr>pos_height := v\<rparr>,
       previewMode := (if content s \<noteq> [] then True else previewMode s)\<rparr>"
| "step lib s (EndDrawing dataUrl) = s\<lparr>signatureData := Some dataUrl\<rparr>"
| "step lib s ClearSignature = s\<lparr>signatureData := None\<rparr>"
| "step lib s ClickPreview = s\<lparr>previewMode := True\<rparr>"
| "step lib s (ClickSave now date) = clickSave lib now date s"
| "step lib s (CancelEditing date) = cancelEditing lib date s s"
| "step lib s (StartEditing ident) = startEditing ident s"
| "step lib s (DeleteAnnotation ident date1 date2) = deleteAnnotation lib ident date1 date2 s"
| "step lib s (StartDragging clientX clientY ident) = startDragging clientX clientY ident s"
| "step lib s (HandleDrag clientX clientY) = handleDrag clientX clientY s"
| "step lib s (EndDragging date) = endDragging lib date s"
| "step lib s (UpdatePdfPreview date) = callUpdatePdfPreview lib date s s"

definition run :: "pdflib \<Rightarrow> event list \<Rightarrow> state" where
  "run lib events = foldl (step lib) initialState events"

subsection \<open>Notions of the specification\<close>

text \<open>What has been drawn on the first page of a document.\<close>

definition firstPageOps :: "pdf_doc \<Rightarrow> draw_op list" where
  "firstPageOps pdfDoc = (case pages pdfDoc of [] \<Rightarrow> [] | p # _ \<Rightarrow> ops p)"

text \<open>
  A signature annotation whose payload fails to decode: the base64 decoding or the PNG
  parser rejects it.
\<close>

definition malformedSignature :: "pdflib \<Rightarrow> annotation \<Rightarrow> bool" where
  "malformedSignature lib ann =
     (ann_type ann = Signature \<and>
      (case ann_imageData ann of
         None \<Rightarrow> False
       | Some imageData \<Rightarrow>
           imageData \<noteq> [] \<and>
           (case signatureImageBytes lib imageData of
              Inl _ \<Rightarrow> True
            | Inr imageBytes \<Rightarrow> \<not> parsePng lib imageBytes)))"

text \<open>A document with its modification date set to \<open>m\<close>.\<close>

definition stamp :: "nat \<Rightarrow> pdf_doc \<Rightarrow> pdf_doc" where
  "stamp m pdfDoc = pdfDoc\<lparr>modificationDate := m\<rparr>"

text \<open>
  An annotation whose text, if it draws text, can be encoded by the font.
\<close>

definition textEncodable :: "pdflib \<Rightarrow> annotation \<Rightarrow> bool" where
  "textEncodable lib ann =
     (if ann_type ann = Text \<or> ann_type ann = Comment
      then canEncodeText lib (ann_content ann) else True)"

text \<open>
  The mark of an annotation, as the table of the specification's Page Compositor
  describes it: the drawing calls it adds to the page, with the draft flag.
\<close>

definition colorOf :: "string \<Rightarrow> rgb_color" where
  "colorOf c =
     RGB (of_nat (rgb_r (hexToRgb c)) / 255) (of_nat (rgb_g (hexToRgb c)) / 255)
         (of_nat (rgb_b (hexToRgb c)) / 255)"

definition annotationMarks :: "pdflib \<Rightarrow> bool \<Rightarrow> annotation \<Rightarrow> draw_op list" where
  "annotationMarks lib isDraft ann =
     (let px = pos_x (ann_position ann); py = pos_y (ann_position ann);
          w = pos_width (ann_position ann); h = pos_height (ann_position ann)
      in case ann_type ann of
        Text \<Rightarrow> [DrawText (ann_content ann) px py 12 Helvetica
                    (if isDraft then RGB 0 0 (1 / 2) else RGB 0 0 0)]
      | Comment \<Rightarrow> [DrawText (ann_content ann) px py 10 Helvetica
                    (if isDraft then RGB 0 0 (1 / 2) else RGB 0 0 0)]
      | Highlight \<Rightarrow>
          (if truthy (ann_color ann)
           then [DrawRectangle px py w h (colorOf (the (ann_color ann)))
                   (if isDraft then 3 / 10 else 1 / 2)]
           else [])
      | Underline \<Rightarrow>
          (if truthy (ann_color ann)
           then [DrawLine px py (px + w) py 2 (colorOf (the (ann_color ann)))
                   (if isDraft then 7 / 10 else 1)]
           else [])
      | Signature \<Rightarrow>
          (if truthy (ann_imageData ann) \<and> \<not> malformedSignature lib ann
           then (case signatureImageBytes lib (the (ann_imageData ann)) of
                   Inl _ \<Rightarrow> []
                 | Inr imageBytes \<Rightarrow>
                     [DrawImage (PDFImage imageBytes) px py 150 60
                        (if isDraft then 7 / 10 else 1)])
           else []))"

subsection \<open>A small stand-in for the library, for concrete runs\<close>

text \<open>
  A document is accepted when it starts with \<^verbatim>\<open>%PDF\<close> and gets one page; an image
  when it starts with \<^verbatim>\<open>PNG\<close>; base64 text when it holds no \<^verbatim>\<open>!\<close>; a text can
  be encoded when all its characters are printable ASCII. Saving writes, for each page,
  its original content and one \<^verbatim>\<open>+\<close> per drawing call, and then the modification
  date in decimal, as the serialiser of pdf-lib writes the date into the metadata.
\<close>

fun showNat :: "nat \<Rightarrow> string" where
  "showNat n =
     (if n < 10 then [''0123456789'' ! n]
      else showNat (n div 10) @ [''0123456789'' ! (n mod 10)])"

definition stubLib :: pdflib where
  "stubLib =
     \<lparr>parsePdf =
        (\<lambda>bs. if take 4 bs = ''%PDF''
              then Some \<lparr>pages = [\<lparr>original = bs, ops = []\<rparr>], fonts = [], images = [],
                         modificationDate = 0\<rparr>
              else None),
      PDFDocument_save =
        (\<lambda>d. concat (map (\<lambda>p. original p @ replicate (length (ops p)) CHR ''+'') (pages d))
              @ '' /ModDate '' @ showNat (modificationDate d)),
      parsePng = (\<lambda>bs. take 3 bs = ''PNG''),
      atob = (\<lambda>str. if CHR ''!'' \<in> set str then None else Some str),
      canEncodeText = list_all (\<lambda>c. 32 \<le> (of_char c :: nat) \<and> (of_char c :: nat) < 127)\<rparr>"

text \<open>
  A concrete state: the file is loaded, one yellow highlight is saved, and the text
  "Hi" is being previewed at (10, 10).
\<close>

definition demoHighlight :: annotation where
  "demoHighlight =
     \<lparr>ann_id = ''1'', ann_type = Highlight, ann_content = ''area'',
      ann_position = \<lparr>pos_x = 50, pos_y = 50, pos_width = 100, pos_height = 20\<rparr>,
      ann_color = Some ''#FFFF00'', ann_imageData = None\<rparr>"

definition demoState :: state where
  "demoState =
     initialState\<lparr>pdfFile := Some ''%PDF-1.4'', pdfUrl := Some ''%PDF-1.4'',
       annotations := [demoHighlight], content := ''Hi'',
       position := \<lparr>pos_x = 10, pos_y = 10, pos_width = 0, pos_height = 0\<rparr>,
       previewMode := True\<rparr>"

text \<open>The same file with the highlight saved and nothing being edited.\<close>

definition demoSaved :: state where
  "demoSaved = initialState\<lparr>pdfFile := Some ''%PDF-1.4'', pdfUrl := Some ''%PDF-1.4'',
      annotations := [demoHighlight]\<rparr>"

text \<open>
  A saved signature whose payload decodes from base64 to bytes that are no PNG.
\<close>

definition demoBadSignature :: annotation where
  "demoBadSignature =
     \<lparr>ann_id = ''2'', ann_type = Signature, ann_content = ''Signature'',
      ann_position = \<lparr>pos_x = 30, pos_y = 40, pos_width = 100, pos_height = 20\<rparr>,
      ann_color = None, ann_imageData = Some ''data:image/png;base64,AAAA''\<rparr>"

text \<open>
  The invariant of the data model on one annotation: its colour is set exactly when it
  is a highlight or an underline.
\<close>

definition colorSetIffMarked :: "annotation \<Rightarrow> bool" where
  "colorSetIffMarked a =
     ((ann_color a \<noteq> None) = (ann_type a = Highlight \<or> ann_type a = Underline))"

section \<open>Properties\<close>

subsection \<open>The colour parser\<close>

lemma hexDigitVal_le: "isHexDigit c \<Longrightarrow> hexDigitVal c \<le> 15"
  unfolding isHexDigit_def hexDigitVal_def by auto

lemma six_list: "length ds = 6 \<Longrightarrow> \<exists>a b c d e f. ds = [a,b,c,d,e,f]"
  by (cases ds; simp; cases "tl ds"; simp; cases "tl (tl ds)"; simp; cases "tl (tl (tl ds))"; simp;
      cases "tl (tl (tl (tl ds)))"; simp; cases "tl (tl (tl (tl (tl ds))))"; simp)

lemma hexRegexExec_plain:
  "sixHexDigits ds \<Longrightarrow> hexRegexExec ds = Some (take 2 ds, take 2 (drop 2 ds), drop 4 ds)"
  unfolding sixHexDigits_def hexRegexExec_def isHexDigit_def
  by (cases ds) (auto simp: Let_def)

lemma hexRegexExec_hash:
  "sixHexDigits ds \<Longrightarrow> hexRegexExec (CHR ''#'' # ds) = Some (take 2 ds, take 2 (drop 2 ds), drop 4 ds)"
  unfolding sixHexDigits_def hexRegexExec_def
  by (simp add: Let_def)

lemma hexRegexExec_none:
  "\<not> sixHexDigits hex \<Longrightarrow> \<not> (\<exists>ds. hex = CHR ''#'' # ds \<and> sixHexDigits ds) \<Longrightarrow> hexRegexExec hex = None"
  unfolding sixHexDigits_def hexRegexExec_def
  by (cases hex) (auto simp: Let_def)

lemma parseInt16_pair: "parseInt16 [c1, c2] = 16 * hexDigitVal c1 + hexDigitVal c2"
  by (simp add: parseInt16_def)

lemma hexToRgb_six:
  assumes "sixHexDigits ds"
  shows "hexToRgb ds =
           \<lparr>rgb_r = 16 * hexDigitVal (ds ! 0) + hexDigitVal (ds ! 1),
            rgb_g = 16 * hexDigitVal (ds ! 2) + hexDigitVal (ds ! 3),
            rgb_b = 16 * hexDigitVal (ds ! 4) + hexDigitVal (ds ! 5)\<rparr>"
    and "hexToRgb (CHR ''#'' # ds) = hexToRgb ds"
proof -
  from assms obtain a b c d e f where ds: "ds = [a,b,c,d,e,f]"
    using six_list unfolding sixHexDigits_def by blast
  show "hexToRgb ds =
           \<lparr>rgb_r = 16 * hexDigitVal (ds ! 0) + hexDigitVal (ds ! 1),
            rgb_g = 16 * hexDigitVal (ds ! 2) + hexDigitVal (ds ! 3),
            rgb_b = 16 * hexDigitVal (ds ! 4) + hexDigitVal (ds ! 5)\<rparr>"
    using assms by (simp add: hexToRgb_def hexRegexExec_plain) (simp add: ds parseInt16_pair)
  show "hexToRgb (CHR ''#'' # ds) = hexToRgb ds"
    using assms by (simp add: hexToRgb_def hexRegexExec_plain hexRegexExec_hash)
qed

lemma hexToRgb_bounds:
  "rgb_r (hexToRgb hex) \<le> 255 \<and> rgb_g (hexToRgb hex) \<le> 255 \<and> rgb_b (hexToRgb hex) \<le> 255"
proof (cases "hexRegexExec hex")
  case None
  then show ?thesis by (simp add: hexToRgb_def)
next
  case (Some t)
  define body where "body = (case hex of [] \<Rightarrow> [] | c # cs \<Rightarrow> if c = CHR ''#'' then cs else hex)"
  from Some have six: "sixHexDigits body" and t: "t = (take 2 body, take 2 (drop 2 body), drop 4 body)"
    unfolding hexRegexExec_def sixHexDigits_def body_def by (auto simp: Let_def split: if_splits)
  from six obtain a b c d e f where ds: "body = [a,b,c,d,e,f]"
    using six_list unfolding sixHexDigits_def by blast
  from six ds have h: "isHexDigit a" "isHexDigit b" "isHexDigit c" "isHexDigit d" "isHexDigit e" "isHexDigit f"
    unfolding sixHexDigits_def by simp_all
  show ?thesis
    using Some t ds hexDigitVal_le[OF h(1)] hexDigitVal_le[OF h(2)] hexDigitVal_le[OF h(3)]
      hexDigitVal_le[OF h(4)] hexDigitVal_le[OF h(5)] hexDigitVal_le[OF h(6)]
    by (simp add: hexToRgb_def parseInt16_pair)
qed

text \<open>
  Claim C5. \<^const>\<open>hexToRgb\<close> accepts an optional leading \<^verbatim>\<open>#\<close> followed by
  exactly six hex digits in either case (a to f count the same as A to F) and returns
  the three channels, each the value of its two digits and at most 255; on a string of any other shape it returns black
  and raises nothing (the function is total). So \<^verbatim>\<open>#FF00AA\<close> gives
  \<open>(255, 0, 170)\<close> and \<^verbatim>\<open>ZZZZZZ\<close> gives black.
\<close>

theorem hexToRgb_parses_six_hex_digits:
  "(sixHexDigits ds \<longrightarrow>
      hexToRgb ds =
        \<lparr>rgb_r = 16 * hexDigitVal (ds ! 0) + hexDigitVal (ds ! 1),
         rgb_g = 16 * hexDigitVal (ds ! 2) + hexDigitVal (ds ! 3),
         rgb_b = 16 * hexDigitVal (ds ! 4) + hexDigitVal (ds ! 5)\<rparr> \<and>
      hexToRgb (CHR ''#'' # ds) = hexToRgb ds) \<and>
   (\<not> sixHexDigits hex \<and> \<not> (\<exists>ds'. hex = CHR ''#'' # ds' \<and> sixHexDigits ds') \<longrightarrow>
      hexToRgb hex = \<lparr>rgb_r = 0, rgb_g = 0, rgb_b = 0\<rparr>) \<and>
   rgb_r (hexToRgb hex) \<le> 255 \<and> rgb_g (hexToRgb hex) \<le> 255 \<and> rgb_b (hexToRgb hex) \<le> 255 \<and>
   map hexDigitVal ''0123456789'' = [0, 1, 2, 3, 4, 5, 6, 7, 8, 9] \<and>
   map hexDigitVal ''abcdef'' = [10, 11, 12, 13, 14, 15] \<and>
   map hexDigitVal ''ABCDEF'' = map hexDigitVal ''abcdef'' \<and>
   hexToRgb ''#FF00AA'' = \<lparr>rgb_r = 255, rgb_g = 0, rgb_b = 170\<rparr> \<and>
   hexToRgb ''#ff00aa'' = \<lparr>rgb_r = 255, rgb_g = 0, rgb_b = 170\<rparr> \<and>
   hexToRgb ''ZZZZZZ'' = \<lparr>rgb_r = 0, rgb_g = 0, rgb_b = 0\<rparr>"
proof -
  have ex1: "hexToRgb ''#FF00AA'' = \<lparr>rgb_r = 255, rgb_g = 0, rgb_b = 170\<rparr>"
    by (simp add: hexToRgb_def hexRegexExec_def isHexDigit_def parseInt16_def hexDigitVal_def)
  have ex2: "hexToRgb ''#ff00aa'' = \<lparr>rgb_r = 255, rgb_g = 0, rgb_b = 170\<rparr>"
    by (simp add: hexToRgb_def hexRegexExec_def isHexDigit_def parseInt16_def hexDigitVal_def)
  have ex3: "hexToRgb ''ZZZZZZ'' = \<lparr>rgb_r = 0, rgb_g = 0, rgb_b = 0\<rparr>"
    by (simp add: hexToRgb_def hexRegexExec_def isHexDigit_def)
  have other: "\<not> sixHexDigits hex \<and> \<not> (\<exists>ds'. hex = CHR ''#'' # ds' \<and> sixHexDigits ds') \<longrightarrow>
      hexToRgb hex = \<lparr>rgb_r = 0, rgb_g = 0, rgb_b = 0\<rparr>"
    using hexRegexExec_none[of hex] by (auto simp: hexToRgb_def)
  have digits: "map hexDigitVal ''0123456789'' = [0, 1, 2, 3, 4, 5, 6, 7, 8, 9]"
    "map hexDigitVal ''abcdef'' = [10, 11, 12, 13, 14, 15]"
    "map hexDigitVal ''ABCDEF'' = map hexDigitVal ''abcdef''"
    by (simp_all add: hexDigitVal_def)
  show ?thesis
    using hexToRgb_six[of ds] hexToRgb_bounds[of hex] ex1 ex2 ex3 other digits
    by simp
qed

theorem hexToRgb_parses_six_hex_digits_witness:
  "sixHexDigits ''FF00AA'' \<and>
   hexToRgb ''FF00AA'' = \<lparr>rgb_r = 255, rgb_g = 0, rgb_b = 170\<rparr> \<and>
   hexToRgb ''#FF00AA'' = hexToRgb ''FF00AA'' \<and>
   \<not> sixHexDigits ''#12345'' \<and>
   hexToRgb ''#12345'' = \<lparr>rgb_r = 0, rgb_g = 0, rgb_b = 0\<rparr>"
proof -
  have six: "sixHexDigits ''FF00AA''"
    by (simp add: sixHexDigits_def isHexDigit_def)
  have n1: "\<not> sixHexDigits ''#12345''"
    by (simp add: sixHexDigits_def isHexDigit_def)
  have n2: "\<not> (\<exists>ds'. ''#12345'' = CHR ''#'' # ds' \<and> sixHexDigits ds')"
    by (simp add: sixHexDigits_def)
  show ?thesis
    using hexToRgb_parses_six_hex_digits[of "''FF00AA''" "''#12345''"] six n1 n2
    by (simp add: hexDigitVal_def)
qed

subsection \<open>What the compositor draws\<close>

lemma drawOnPage_first:
  assumes "pages d = p # ps"
  shows "drawOnPage (Some 0) call d = Inr (d\<lparr>pages := p\<lparr>ops := ops p @ [call]\<rparr> # ps\<rparr>)"
  using assms by (simp add: drawOnPage_def)

lemma firstPageOps_draw:
  assumes "pages d \<noteq> []"
  shows "\<exists>d'. drawOnPage (Some 0) call d = Inr d' \<and> pages d' \<noteq> [] \<and>
           firstPageOps d' = firstPageOps d @ [call]"
proof -
  from assms obtain p ps where "pages d = p # ps" by (cases "pages d") auto
  then show ?thesis by (simp add: drawOnPage_first firstPageOps_def)
qed

lemma firstPageOps_drawText:
  assumes "pages d \<noteq> []" "canEncodeText lib txt"
  shows "\<exists>d'. drawText lib (Some 0) txt px py sz fnt col d = Inr d' \<and> pages d' \<noteq> [] \<and>
           firstPageOps d' = firstPageOps d @ [DrawText txt px py sz fnt col]"
  using firstPageOps_draw[OF assms(1)] assms(2) by (simp add: drawText_def)

lemma embedSignature_malformed:
  assumes "malformedSignature lib ann" "ann_imageData ann = Some imageData"
  shows "\<exists>e. embedSignature lib ann imageData page isPreview d = Inl e"
  using assms
  by (auto simp: malformedSignature_def embedSignature_def embedPng_def
      split: sum.splits option.splits)

lemma embedSignature_ok:
  assumes "pages d \<noteq> []" "signatureImageBytes lib imageData = Inr imageBytes"
    "parsePng lib imageBytes"
  shows "\<exists>d'. embedSignature lib ann imageData (Some 0) isPreview d = Inr d' \<and> pages d' \<noteq> [] \<and>
           firstPageOps d' = firstPageOps d @
             [DrawImage (PDFImage imageBytes) (pos_x (ann_position ann)) (pos_y (ann_position ann))
                150 60 (if isPreview then 7 / 10 else 1)]"
proof -
  let ?d1 = "d\<lparr>images := images d @ [PDFImage imageBytes]\<rparr>"
  have p1: "pages ?d1 \<noteq> []" using assms(1) by simp
  have f1: "firstPageOps ?d1 = firstPageOps d" by (simp add: firstPageOps_def)
  from firstPageOps_draw[OF p1] f1 show ?thesis
    using assms(2,3) by (simp add: embedSignature_def embedPng_def)
qed

lemma applyAnnotationToPage_marks:
  assumes "pages d \<noteq> []" "textEncodable lib ann"
  shows "\<exists>d' con'. applyAnnotationToPage lib ann (Some 0) Helvetica isPreview d con = (Inr d', con') \<and>
           pages d' \<noteq> [] \<and>
           firstPageOps d' = firstPageOps d @ annotationMarks lib isPreview ann"
proof (cases "ann_type ann")
  case Text
  with assms(2) have "canEncodeText lib (ann_content ann)" by (simp add: textEncodable_def)
  from firstPageOps_drawText[OF assms(1) this] Text show ?thesis
    by (simp add: applyAnnotationToPage_def annotationMarks_def)
next
  case Comment
  with assms(2) have "canEncodeText lib (ann_content ann)" by (simp add: textEncodable_def)
  from firstPageOps_drawText[OF assms(1) this] Comment show ?thesis
    by (simp add: applyAnnotationToPage_def annotationMarks_def)
next
  case Highlight
  then show ?thesis
    using firstPageOps_draw[OF assms(1)] assms(1)
    by (cases "ann_color ann")
       (simp_all add: applyAnnotationToPage_def annotationMarks_def colorOf_def Let_def)
next
  case Underline
  then show ?thesis
    using firstPageOps_draw[OF assms(1)] assms(1)
    by (cases "ann_color ann")
       (simp_all add: applyAnnotationToPage_def annotationMarks_def colorOf_def Let_def)
next
  case Signature
  show ?thesis
  proof (cases "ann_imageData ann")
    case None
    with Signature assms(1) show ?thesis
      by (simp add: applyAnnotationToPage_def annotationMarks_def)
  next
    case (Some imageData)
    show ?thesis
    proof (cases "imageData = []")
      case True
      with Some Signature assms(1) show ?thesis
        by (simp add: applyAnnotationToPage_def annotationMarks_def)
    next
      case False
      show ?thesis
      proof (cases "malformedSignature lib ann")
        case True
        from embedSignature_malformed[OF True Some]
        obtain e where "embedSignature lib ann imageData (Some 0) isPreview d = Inl e" by blast
        with True Some Signature False assms(1) show ?thesis
          by (simp add: applyAnnotationToPage_def annotationMarks_def)
      next
        case nm: False
        with Some Signature False obtain imageBytes where
          b: "signatureImageBytes lib imageData = Inr imageBytes" and ok: "parsePng lib imageBytes"
          by (auto simp: malformedSignature_def split: sum.splits)
        from embedSignature_ok[OF assms(1) b ok, of ann isPreview]
        show ?thesis
          using nm Some Signature False b
          by (auto simp: applyAnnotationToPage_def annotationMarks_def)
      qed
    qed
  qed
qed

lemma applyAnnotations_marks:
  assumes "pages d \<noteq> []" "list_all (textEncodable lib) anns"
  shows "\<exists>d' con'. applyAnnotations lib anns (Some 0) Helvetica d con = (Inr d', con') \<and>
           pages d' \<noteq> [] \<and>
           firstPageOps d' = firstPageOps d @ concat (map (annotationMarks lib False) anns)"
  using assms
proof (induction anns arbitrary: d con)
  case Nil
  then show ?case by simp
next
  case (Cons a anns)
  from Cons.prems(2) have ea: "textEncodable lib a" and er: "list_all (textEncodable lib) anns"
    by simp_all
  from applyAnnotationToPage_marks[OF Cons.prems(1) ea, of False con]
  obtain d1 con1 where
    s1: "applyAnnotationToPage lib a (Some 0) Helvetica False d con = (Inr d1, con1)"
    and p1: "pages d1 \<noteq> []"
    and f1: "firstPageOps d1 = firstPageOps d @ annotationMarks lib False a"
    by blast
  from Cons.IH[OF p1 er, of con1] s1 f1 show ?case by auto
qed

lemma loadAndAnnotate_marks:
  assumes "PDFDocument_load lib date src = Some d0" "pages d0 \<noteq> []"
    "list_all (textEncodable lib) anns"
  shows "\<exists>d con'. loadAndAnnotate lib date src anns con = (Inr (Some 0, Helvetica, d), con') \<and>
           pages d \<noteq> [] \<and>
           firstPageOps d = firstPageOps d0 @ concat (map (annotationMarks lib False) anns)"
proof -
  let ?d1 = "d0\<lparr>fonts := fonts d0 @ [Helvetica]\<rparr>"
  have p1: "pages ?d1 \<noteq> []" using assms(2) by simp
  have f1: "firstPageOps ?d1 = firstPageOps d0" by (simp add: firstPageOps_def)
  from applyAnnotations_marks[OF p1 assms(3), of con] f1
  show ?thesis
    using assms(1,2) by (auto simp: loadAndAnnotate_def getFirstPage_def embedFont_def)
qed

lemma applyAnnotationToPage_console_free:
  "fst (applyAnnotationToPage lib a page fnt ip d con) =
   fst (applyAnnotationToPage lib a page fnt ip d con')"
  by (simp add: applyAnnotationToPage_def Let_def
      split: annotation_type.splits option.splits sum.splits)

lemma applyAnnotations_console_free:
  "fst (applyAnnotations lib anns page fnt d con) = fst (applyAnnotations lib anns page fnt d con')"
proof (induction anns arbitrary: d con con')
  case Nil
  then show ?case by simp
next
  case (Cons a anns)
  obtain r c where r: "applyAnnotationToPage lib a page fnt False d con = (r, c)"
    by (cases "applyAnnotationToPage lib a page fnt False d con")
  obtain r' c' where r': "applyAnnotationToPage lib a page fnt False d con' = (r', c')"
    by (cases "applyAnnotationToPage lib a page fnt False d con'")
  from applyAnnotationToPage_console_free[of lib a page fnt False d con con'] r r'
  have eq: "r' = r" by simp
  show ?case
  proof (cases r)
    case (Inl e)
    with r r' eq show ?thesis by simp
  next
    case (Inr d1)
    with r r' eq Cons.IH[of d1 c c'] show ?thesis by simp
  qed
qed

lemma malformedSignature_skipped:
  assumes "malformedSignature lib a"
  shows "\<exists>e. applyAnnotationToPage lib a page fnt ip d con =
           (Inr d, con @ [(''Error embedding signature:'', e)])"
proof -
  from assms obtain imageData where i: "ann_imageData a = Some imageData" "imageData \<noteq> []"
    and t: "ann_type a = Signature"
    by (auto simp: malformedSignature_def split: option.splits)
  from embedSignature_malformed[OF assms i(1), of page ip d]
  obtain e where "embedSignature lib a imageData page ip d = Inl e" by blast
  with i t show ?thesis by (simp add: applyAnnotationToPage_def)
qed

lemma applyAnnotations_filter_malformed:
  "fst (applyAnnotations lib anns page fnt d con) =
   fst (applyAnnotations lib (filter (\<lambda>a. \<not> malformedSignature lib a) anns) page fnt d con')"
proof (induction anns arbitrary: d con con')
  case Nil
  then show ?case by simp
next
  case (Cons a anns)
  show ?case
  proof (cases "malformedSignature lib a")
    case True
    from malformedSignature_skipped[OF True, of page fnt False d con]
    obtain e where "applyAnnotationToPage lib a page fnt False d con =
           (Inr d, con @ [(''Error embedding signature:'', e)])" by blast
    with True Cons.IH[of d _ con'] show ?thesis by simp
  next
    case False
    obtain r c where r: "applyAnnotationToPage lib a page fnt False d con = (r, c)"
      by (cases "applyAnnotationToPage lib a page fnt False d con")
    obtain r' c' where r': "applyAnnotationToPage lib a page fnt False d con' = (r', c')"
      by (cases "applyAnnotationToPage lib a page fnt False d con'")
    from applyAnnotationToPage_console_free[of lib a page fnt False d con con'] r r'
    have eq: "r' = r" by simp
    show ?thesis
    proof (cases r)
      case (Inl e)
      with r r' eq False show ?thesis by simp
    next
      case (Inr d1)
      with r r' eq False Cons.IH[of d1 c c'] show ?thesis by simp
    qed
  qed
qed

lemma loadAndAnnotate_console_free:
  "fst (loadAndAnnotate lib date src anns con) = fst (loadAndAnnotate lib date src anns con')"
proof (cases "PDFDocument_load lib date src")
  case None
  then show ?thesis by (simp add: loadAndAnnotate_def)
next
  case (Some d0)
  let ?d1 = "d0\<lparr>fonts := fonts d0 @ [Helvetica]\<rparr>"
  obtain r c where r: "applyAnnotations lib anns (getFirstPage d0) Helvetica ?d1 con = (r, c)"
    by (cases "applyAnnotations lib anns (getFirstPage d0) Helvetica ?d1 con")
  obtain r' c' where r': "applyAnnotations lib anns (getFirstPage d0) Helvetica ?d1 con' = (r', c')"
    by (cases "applyAnnotations lib anns (getFirstPage d0) Helvetica ?d1 con'")
  from applyAnnotations_console_free[of lib anns "getFirstPage d0" Helvetica ?d1 con con'] r r'
  have "r' = r" by simp
  with Some r r' show ?thesis
    by (cases r) (simp_all add: loadAndAnnotate_def embedFont_def)
qed

lemma loadAndAnnotate_filter_malformed:
  "fst (loadAndAnnotate lib date src anns con) =
   fst (loadAndAnnotate lib date src (filter (\<lambda>a. \<not> malformedSignature lib a) anns) con')"
proof (cases "PDFDocument_load lib date src")
  case None
  then show ?thesis by (simp add: loadAndAnnotate_def)
next
  case (Some d0)
  let ?d1 = "d0\<lparr>fonts := fonts d0 @ [Helvetica]\<rparr>"
  let ?f = "filter (\<lambda>a. \<not> malformedSignature lib a) anns"
  obtain r c where r: "applyAnnotations lib anns (getFirstPage d0) Helvetica ?d1 con = (r, c)"
    by (cases "applyAnnotations lib anns (getFirstPage d0) Helvetica ?d1 con")
  obtain r' c' where r': "applyAnnotations lib ?f (getFirstPage d0) Helvetica ?d1 con' = (r', c')"
    by (cases "applyAnnotations lib ?f (getFirstPage d0) Helvetica ?d1 con'")
  from applyAnnotations_filter_malformed[of lib anns "getFirstPage d0" Helvetica ?d1 con con'] r r'
  have "r' = r" by simp
  with Some r r' show ?thesis
    by (cases r) (simp_all add: loadAndAnnotate_def embedFont_def)
qed

lemma malformedSignature_no_mark:
  "malformedSignature lib a \<Longrightarrow> annotationMarks lib isDraft a = []"
  by (simp add: annotationMarks_def malformedSignature_def)

lemma marks_filter_malformed:
  "concat (map (annotationMarks lib isDraft) (filter (\<lambda>a. \<not> malformedSignature lib a) anns)) =
   concat (map (annotationMarks lib isDraft) anns)"
  by (induction anns) (simp_all add: malformedSignature_no_mark)

text \<open>The modification date is carried along and never read.\<close>

lemma drawOnPage_stamp:
  "drawOnPage page call (stamp m d) = map_sum id (stamp m) (drawOnPage page call d)"
  by (cases page) (simp_all add: drawOnPage_def stamp_def)

lemma drawText_stamp:
  "drawText lib page txt px py sz fnt col (stamp m d) =
   map_sum id (stamp m) (drawText lib page txt px py sz fnt col d)"
  by (cases page) (simp_all add: drawText_def drawOnPage_stamp)

lemma embedPng_stamp:
  "embedPng lib bs (stamp m d) = map_sum id (map_prod id (stamp m)) (embedPng lib bs d)"
  by (simp add: embedPng_def stamp_def)

lemma embedSignature_stamp:
  "embedSignature lib a imageData page ip (stamp m d) =
   map_sum id (stamp m) (embedSignature lib a imageData page ip d)"
proof (cases "signatureImageBytes lib imageData")
  case (Inl e)
  then show ?thesis by (simp add: embedSignature_def)
next
  case (Inr bs)
  show ?thesis
  proof (cases page)
    case None
    with Inr show ?thesis by (simp add: embedSignature_def)
  next
    case (Some i)
    show ?thesis
    proof (cases "embedPng lib bs d")
      case (Inl e)
      with Inr Some show ?thesis by (simp add: embedSignature_def embedPng_stamp)
    next
      case r: (Inr pr)
      obtain img d1 where pr: "pr = (img, d1)" by (cases pr)
      with Inr Some r show ?thesis
        by (simp add: embedSignature_def embedPng_stamp drawOnPage_stamp)
    qed
  qed
qed

lemma applyAnnotationToPage_stamp:
  "applyAnnotationToPage lib a page fnt ip (stamp m d) con =
   map_prod (map_sum id (stamp m)) id (applyAnnotationToPage lib a page fnt ip d con)"
  by (simp add: applyAnnotationToPage_def drawOnPage_stamp drawText_stamp embedSignature_stamp Let_def
      split: annotation_type.splits option.splits sum.splits)

lemma applyAnnotations_stamp:
  "applyAnnotations lib anns page fnt (stamp m d) con =
   map_prod (map_sum id (stamp m)) id (applyAnnotations lib anns page fnt d con)"
proof (induction anns arbitrary: d con)
  case Nil
  then show ?case by simp
next
  case (Cons a anns)
  obtain r c where r: "applyAnnotationToPage lib a page fnt False d con = (r, c)"
    by (cases "applyAnnotationToPage lib a page fnt False d con")
  show ?case
    using r Cons.IH by (cases r) (simp_all add: applyAnnotationToPage_stamp)
qed

lemma stub_load: "PDFDocument_load stubLib date ''%PDF-1.4'' =
   Some \<lparr>pages = [\<lparr>original = ''%PDF-1.4'', ops = []\<rparr>], fonts = [], images = [],
         modificationDate = date\<rparr>"
  by (simp add: PDFDocument_load_def stubLib_def)

lemma stub_encodes_Hi: "canEncodeText stubLib ''Hi''"
  by (simp add: stubLib_def)

lemma colorOf_yellow: "colorOf ''#FFFF00'' = RGB 1 1 0"
  by (simp add: colorOf_def hexToRgb_def hexRegexExec_def isHexDigit_def parseInt16_def hexDigitVal_def)

lemma previewDocument_marks:
  assumes "pdfFile s = Some src" "PDFDocument_load lib date src = Some d0" "pages d0 \<noteq> []"
    "list_all (textEncodable lib) (annotations s)"
    "previewShown s \<longrightarrow> textEncodable lib (previewAnnotation s)"
  shows "\<exists>d con. previewDocument lib date src s = (Inr d, con) \<and>
           firstPageOps d =
             firstPageOps d0 @ concat (map (annotationMarks lib False) (annotations s)) @
             (if previewShown s then annotationMarks lib True (previewAnnotation s) else []) \<and>
           updatePdfPreview lib date s =
             Inr (s\<lparr>pdfUrl := Some (PDFDocument_save lib d), console := con\<rparr>)"
proof -
  from loadAndAnnotate_marks[OF assms(2,3,4), of "console s"]
  obtain d1 con1 where
    l: "loadAndAnnotate lib date src (annotations s) (console s) = (Inr (Some 0, Helvetica, d1), con1)"
    and p1: "pages d1 \<noteq> []"
    and f1: "firstPageOps d1 = firstPageOps d0 @ concat (map (annotationMarks lib False) (annotations s))"
    by blast
  show ?thesis
  proof (cases "previewShown s")
    case False
    with l f1 assms(1) show ?thesis
      by (simp add: previewDocument_def updatePdfPreview_def)
  next
    case True
    with assms(5) have e: "textEncodable lib (previewAnnotation s)" by simp
    from applyAnnotationToPage_marks[OF p1 e, of True con1]
    obtain d2 con2 where
      a: "applyAnnotationToPage lib (previewAnnotation s) (Some 0) Helvetica True d1 con1 = (Inr d2, con2)"
      and f2: "firstPageOps d2 = firstPageOps d1 @ annotationMarks lib True (previewAnnotation s)"
      by blast
    with True l f1 assms(1) show ?thesis
      by (simp add: previewDocument_def updatePdfPreview_def)
  qed
qed

text \<open>
  Claim C3. In a render pass of \<^verbatim>\<open>updatePdfPreview\<close> on a document that loads and
  has a page, and whose text and comment annotations the font can encode, the first page
  receives the marks of the saved annotations in the order of the list, each drawn with
  the draft flag false, and after them, exactly when preview mode is on and the content
  is non-empty or the tool is the signature tool, the mark of the draft built from the
  input fields, drawn with the draft flag true. The document so drawn is the one saved
  into the preview URL.
\<close>

theorem updatePdfPreview_draws_saved_then_draft:
  assumes "pdfFile s = Some src" "PDFDocument_load lib date src = Some d0" "pages d0 \<noteq> []"
    "list_all (textEncodable lib) (annotations s)"
    "previewMode s \<and> content s \<noteq> [] \<and> (activeTool s = Text \<or> activeTool s = Comment)
       \<longrightarrow> canEncodeText lib (content s)"
  shows "\<exists>d con. previewDocument lib date src s = (Inr d, con) \<and>
           firstPageOps d =
             firstPageOps d0 @ concat (map (annotationMarks lib False) (annotations s)) @
             (if previewMode s \<and> (content s \<noteq> [] \<or> activeTool s = Signature)
              then annotationMarks lib True
                     \<lparr>ann_id = ''preview'', ann_type = activeTool s, ann_content = content s,
                      ann_position = position s, ann_color = Some (color s),
                      ann_imageData =
                        (case signatureData s of
                           None \<Rightarrow> None
                         | Some sig \<Rightarrow> if sig = [] then None else Some sig)\<rparr>
              else []) \<and>
           updatePdfPreview lib date s =
             Inr (s\<lparr>pdfUrl := Some (PDFDocument_save lib d), console := con\<rparr>)"
proof -
  have pa: "previewAnnotation s =
      \<lparr>ann_id = ''preview'', ann_type = activeTool s, ann_content = content s,
       ann_position = position s, ann_color = Some (color s),
       ann_imageData =
         (case signatureData s of None \<Rightarrow> None | Some sig \<Rightarrow> if sig = [] then None else Some sig)\<rparr>"
    by (cases "signatureData s") (simp_all add: previewAnnotation_def)
  have ps: "previewShown s = (previewMode s \<and> (content s \<noteq> [] \<or> activeTool s = Signature))"
    by (simp add: previewShown_def)
  have e: "previewShown s \<longrightarrow> textEncodable lib (previewAnnotation s)"
    using assms(5) by (auto simp: previewShown_def textEncodable_def previewAnnotation_def)
  from previewDocument_marks[OF assms(1-4) e] show ?thesis
    unfolding pa ps .
qed

theorem updatePdfPreview_draws_saved_then_draft_witness:
  "(\<exists>d con. previewDocument stubLib 1700000000 ''%PDF-1.4'' demoState = (Inr d, con) \<and>
     firstPageOps d =
       [DrawRectangle 50 50 100 20 (RGB 1 1 0) (1 / 2),
        DrawText ''Hi'' 10 10 12 Helvetica (RGB 0 0 (1 / 2))]) \<and>
   (\<exists>d con. previewDocument stubLib 1700000000 ''%PDF-1.4'' (demoState\<lparr>content := []\<rparr>) = (Inr d, con) \<and>
     firstPageOps d = [DrawRectangle 50 50 100 20 (RGB 1 1 0) (1 / 2)]) \<and>
   (\<exists>d con. previewDocument stubLib 1700000000 ''%PDF-1.4'' (demoState\<lparr>previewMode := False\<rparr>) = (Inr d, con) \<and>
     firstPageOps d = [DrawRectangle 50 50 100 20 (RGB 1 1 0) (1 / 2)])"
proof -
  have p: "pages \<lparr>pages = [\<lparr>original = ''%PDF-1.4'', ops = []\<rparr>], fonts = [], images = [],
                   modificationDate = 1700000000\<rparr> \<noteq> []"
    by simp
  have m1: "annotationMarks stubLib False demoHighlight = [DrawRectangle 50 50 100 20 (RGB 1 1 0) (1 / 2)]"
    by (simp add: annotationMarks_def demoHighlight_def colorOf_yellow)
  have enc: "textEncodable stubLib demoHighlight"
    by (simp add: textEncodable_def demoHighlight_def)
  have 1: "\<exists>d con. previewDocument stubLib 1700000000 ''%PDF-1.4'' demoState = (Inr d, con) \<and>
     firstPageOps d =
       [DrawRectangle 50 50 100 20 (RGB 1 1 0) (1 / 2),
        DrawText ''Hi'' 10 10 12 Helvetica (RGB 0 0 (1 / 2))]"
    using updatePdfPreview_draws_saved_then_draft[of demoState "''%PDF-1.4''" stubLib 1700000000, OF _ stub_load p]
      m1 enc stub_encodes_Hi
    by (simp add: demoState_def initialState_def annotationMarks_def firstPageOps_def) blast
  have 2: "\<exists>d con. previewDocument stubLib 1700000000 ''%PDF-1.4'' (demoState\<lparr>content := []\<rparr>) = (Inr d, con) \<and>
     firstPageOps d = [DrawRectangle 50 50 100 20 (RGB 1 1 0) (1 / 2)]"
    using updatePdfPreview_draws_saved_then_draft[of "demoState\<lparr>content := []\<rparr>" "''%PDF-1.4''" stubLib 1700000000,
        OF _ stub_load p] m1 enc
    by (simp add: demoState_def initialState_def firstPageOps_def) blast
  have 3: "\<exists>d con. previewDocument stubLib 1700000000 ''%PDF-1.4'' (demoState\<lparr>previewMode := False\<rparr>) = (Inr d, con) \<and>
     firstPageOps d = [DrawRectangle 50 50 100 20 (RGB 1 1 0) (1 / 2)]"
    using updatePdfPreview_draws_saved_then_draft[of "demoState\<lparr>previewMode := False\<rparr>" "''%PDF-1.4''" stubLib 1700000000,
        OF _ stub_load p] m1 enc
    by (simp add: demoState_def initialState_def firstPageOps_def) blast
  from 1 2 3 show ?thesis by blast
qed

text \<open>
  Claim C8. \<^const>\<open>applyAnnotationToPage\<close> on the first page of a document draws, for
  a text annotation whose content the font can encode, the content at (x, y) in size 12,
  black \<open>rgb(0, 0, 0)\<close> when saved and the navy tint \<open>rgb(0, 0, 0.5)\<close> when
  previewed (content the font cannot encode makes the call throw); for a highlight with
  a colour, a rectangle over the position in the parsed colour at opacity 0.5 saved and
  0.3 previewed; for an underline with a colour, a line from (x, y) to (x + width, y) of
  thickness 2 in the parsed colour at opacity 1 saved and 0.7 previewed, where x, width
  and their sum are safe integers. Nothing else of the document changes.
\<close>

theorem applyAnnotationToPage_fixed_parameters:
  assumes "pages d = p # ps"
  shows
  "(ann_type ann = Text \<and> canEncodeText lib (ann_content ann) \<longrightarrow>
      applyAnnotationToPage lib ann (Some 0) fnt isPreview d con =
        (Inr (d\<lparr>pages := p\<lparr>ops := ops p @
           [DrawText (ann_content ann) (pos_x (ann_position ann)) (pos_y (ann_position ann)) 12 fnt
              (if isPreview then RGB 0 0 (1 / 2) else RGB 0 0 0)]\<rparr> # ps\<rparr>), con)) \<and>
   (ann_type ann = Text \<and> \<not> canEncodeText lib (ann_content ann) \<longrightarrow>
      applyAnnotationToPage lib ann (Some 0) fnt isPreview d con = (Inl EncodingError, con)) \<and>
   (ann_type ann = Highlight \<and> ann_color ann = Some c \<and> c \<noteq> [] \<longrightarrow>
      applyAnnotationToPage lib ann (Some 0) fnt isPreview d con =
        (Inr (d\<lparr>pages := p\<lparr>ops := ops p @
           [DrawRectangle (pos_x (ann_position ann)) (pos_y (ann_position ann))
              (pos_width (ann_position ann)) (pos_height (ann_position ann))
              (colorOf c) (if isPreview then 3 / 10 else 1 / 2)]\<rparr> # ps\<rparr>), con)) \<and>
   (ann_type ann = Underline \<and> ann_color ann = Some c \<and> c \<noteq> [] \<and>
    safeInteger (pos_x (ann_position ann)) \<and> safeInteger (pos_width (ann_position ann)) \<and>
    safeInteger (pos_x (ann_position ann) + pos_width (ann_position ann)) \<longrightarrow>
      applyAnnotationToPage lib ann (Some 0) fnt isPreview d con =
        (Inr (d\<lparr>pages := p\<lparr>ops := ops p @
           [DrawLine (pos_x (ann_position ann)) (pos_y (ann_position ann))
              (pos_x (ann_position ann) + pos_width (ann_position ann)) (pos_y (ann_position ann))
              2 (colorOf c) (if isPreview then 7 / 10 else 1)]\<rparr> # ps\<rparr>), con))"
  using assms
  by (simp add: applyAnnotationToPage_def drawText_def drawOnPage_def colorOf_def Let_def)

theorem applyAnnotationToPage_fixed_parameters_witness:
  "applyAnnotationToPage stubLib demoHighlight (Some 0) Helvetica False
     \<lparr>pages = [\<lparr>original = ''%PDF-1.4'', ops = []\<rparr>], fonts = [Helvetica], images = [],
       modificationDate = 1700000000\<rparr> [] =
   (Inr \<lparr>pages = [\<lparr>original = ''%PDF-1.4'',
                     ops = [DrawRectangle 50 50 100 20 (RGB 1 1 0) (1 / 2)]\<rparr>],
          fonts = [Helvetica], images = [], modificationDate = 1700000000\<rparr>, []) \<and>
   applyAnnotationToPage stubLib (demoHighlight\<lparr>ann_type := Underline\<rparr>) (Some 0) Helvetica True
     \<lparr>pages = [\<lparr>original = ''%PDF-1.4'', ops = []\<rparr>], fonts = [Helvetica], images = [],
       modificationDate = 1700000000\<rparr> [] =
   (Inr \<lparr>pages = [\<lparr>original = ''%PDF-1.4'',
                     ops = [DrawLine 50 50 150 50 2 (RGB 1 1 0) (7 / 10)]\<rparr>],
          fonts = [Helvetica], images = [], modificationDate = 1700000000\<rparr>, []) \<and>
   applyAnnotationToPage stubLib (previewAnnotation demoState) (Some 0) Helvetica True
     \<lparr>pages = [\<lparr>original = ''%PDF-1.4'', ops = []\<rparr>], fonts = [Helvetica], images = [],
       modificationDate = 1700000000\<rparr> [] =
   (Inr \<lparr>pages = [\<lparr>original = ''%PDF-1.4'',
                     ops = [DrawText ''Hi'' 10 10 12 Helvetica (RGB 0 0 (1 / 2))]\<rparr>],
          fonts = [Helvetica], images = [], modificationDate = 1700000000\<rparr>, []) \<and>
   applyAnnotationToPage stubLib (previewAnnotation (demoState\<lparr>content := [CHR 0x01]\<rparr>)) (Some 0)
     Helvetica True
     \<lparr>pages = [\<lparr>original = ''%PDF-1.4'', ops = []\<rparr>], fonts = [Helvetica], images = [],
       modificationDate = 1700000000\<rparr> [] =
   (Inl EncodingError, [])"
proof -
  let ?d = "\<lparr>pages = [\<lparr>original = ''%PDF-1.4'', ops = []\<rparr>], fonts = [Helvetica], images = [],
             modificationDate = 1700000000\<rparr>"
  have p: "pages ?d = \<lparr>original = ''%PDF-1.4'', ops = []\<rparr> # []" by simp
  note inst = applyAnnotationToPage_fixed_parameters[OF p, where lib = stubLib and fnt = Helvetica
      and con = "[]"]
  have 1: "applyAnnotationToPage stubLib demoHighlight (Some 0) Helvetica False ?d [] =
     (Inr \<lparr>pages = [\<lparr>original = ''%PDF-1.4'',
                     ops = [DrawRectangle 50 50 100 20 (RGB 1 1 0) (1 / 2)]\<rparr>],
          fonts = [Helvetica], images = [], modificationDate = 1700000000\<rparr>, [])"
    using inst[where ann = demoHighlight and c = "''#FFFF00''" and isPreview = False]
    by (simp add: colorOf_yellow demoHighlight_def)
  have 2: "applyAnnotationToPage stubLib (demoHighlight\<lparr>ann_type := Underline\<rparr>) (Some 0) Helvetica True ?d [] =
     (Inr \<lparr>pages = [\<lparr>original = ''%PDF-1.4'',
                     ops = [DrawLine 50 50 150 50 2 (RGB 1 1 0) (7 / 10)]\<rparr>],
          fonts = [Helvetica], images = [], modificationDate = 1700000000\<rparr>, [])"
    using inst[where ann = "demoHighlight\<lparr>ann_type := Underline\<rparr>" and c = "''#FFFF00''" and isPreview = True]
    by (simp add: colorOf_yellow demoHighlight_def safeInteger_def)
  have 3: "applyAnnotationToPage stubLib (previewAnnotation demoState) (Some 0) Helvetica True ?d [] =
    (Inr \<lparr>pages = [\<lparr>original = ''%PDF-1.4'',
                     ops = [DrawText ''Hi'' 10 10 12 Helvetica (RGB 0 0 (1 / 2))]\<rparr>],
          fonts = [Helvetica], images = [], modificationDate = 1700000000\<rparr>, [])"
    using inst[where ann = "previewAnnotation demoState" and isPreview = True] stub_encodes_Hi
    by (simp add: previewAnnotation_def demoState_def initialState_def)
  have 4: "applyAnnotationToPage stubLib (previewAnnotation (demoState\<lparr>content := [CHR 0x01]\<rparr>)) (Some 0)
     Helvetica True ?d [] = (Inl EncodingError, [])"
    using inst[where ann = "previewAnnotation (demoState\<lparr>content := [CHR 0x01]\<rparr>)" and isPreview = True]
    by (simp add: previewAnnotation_def demoState_def initialState_def stubLib_def)
  from 1 2 3 4 show ?thesis by simp
qed

text \<open>
  Claim C10. For a highlight or an underline whose colour is absent (or the empty
  string), \<^const>\<open>applyAnnotationToPage\<close> leaves the document and the console as they
  are and throws nothing, whatever the page reference.
\<close>

theorem applyAnnotationToPage_without_color:
  assumes "ann_type ann = Highlight \<or> ann_type ann = Underline" "\<not> truthy (ann_color ann)"
  shows "applyAnnotationToPage lib ann page fnt isPreview d con = (Inr d, con)"
  using assms
  by (cases "ann_color ann") (auto simp: applyAnnotationToPage_def)

theorem applyAnnotationToPage_without_color_witness:
  "applyAnnotationToPage stubLib (demoHighlight\<lparr>ann_color := None\<rparr>) (Some 0) Helvetica False
     \<lparr>pages = [\<lparr>original = ''%PDF-1.4'', ops = []\<rparr>], fonts = [Helvetica], images = [],
       modificationDate = 1700000000\<rparr> [] =
   (Inr \<lparr>pages = [\<lparr>original = ''%PDF-1.4'', ops = []\<rparr>], fonts = [Helvetica], images = [],
          modificationDate = 1700000000\<rparr>, []) \<and>
   applyAnnotationToPage stubLib (demoHighlight\<lparr>ann_type := Underline, ann_color := None\<rparr>) None Helvetica True
     \<lparr>pages = [], fonts = [], images = [], modificationDate = 1700000000\<rparr> [] =
   (Inr \<lparr>pages = [], fonts = [], images = [], modificationDate = 1700000000\<rparr>, [])"
proof -
  have a: "ann_type (demoHighlight\<lparr>ann_color := None\<rparr>) = Highlight \<or>
           ann_type (demoHighlight\<lparr>ann_color := None\<rparr>) = Underline"
    by (simp add: demoHighlight_def)
  have b: "\<not> truthy (ann_color (demoHighlight\<lparr>ann_color := None\<rparr>))" by simp
  have a2: "ann_type (demoHighlight\<lparr>ann_type := Underline, ann_color := None\<rparr>) = Highlight \<or>
           ann_type (demoHighlight\<lparr>ann_type := Underline, ann_color := None\<rparr>) = Underline"
    by simp
  have b2: "\<not> truthy (ann_color (demoHighlight\<lparr>ann_type := Underline, ann_color := None\<rparr>))" by simp
  show ?thesis
    using applyAnnotationToPage_without_color[OF a b] applyAnnotationToPage_without_color[OF a2 b2]
    by simp
qed

subsection \<open>Rendering reads the state\<close>

lemma updatePdfPreview_frame:
  "\<exists>s'. updatePdfPreview lib date s = Inr s' \<and>
     annotations s' = annotations s \<and>
     s' = s\<lparr>pdfUrl := pdfUrl s', console := console s'\<rparr>"
proof (cases "pdfFile s")
  case None
  then show ?thesis by (simp add: updatePdfPreview_def)
next
  case (Some src)
  obtain r con where r: "previewDocument lib date src s = (r, con)"
    by (cases "previewDocument lib date src s")
  with Some show ?thesis
    by (cases r) (simp_all add: updatePdfPreview_def)
qed

text \<open>
  Claim C6. \<^const>\<open>updatePdfPreview\<close> completes normally and changes at most the
  preview URL and the console: the saved annotations are what they were, and so are
  the fields of the draft (content, tool, position, preview mode, the id being edited),
  so nothing has been saved on the way.
\<close>

theorem updatePdfPreview_keeps_annotations:
  "\<exists>s'. updatePdfPreview lib date s = Inr s' \<and>
     annotations s' = annotations s \<and>
     s' = s\<lparr>pdfUrl := pdfUrl s', console := console s'\<rparr>"
  by (rule updatePdfPreview_frame)

theorem updatePdfPreview_keeps_annotations_witness:
  "\<exists>s'. updatePdfPreview stubLib 1700000000 demoState = Inr s' \<and>
     annotations s' = [demoHighlight] \<and> content s' = ''Hi'' \<and> previewMode s' \<and>
     editingId s' = None"
proof -
  from updatePdfPreview_keeps_annotations[of stubLib 1700000000 demoState]
  obtain s' where s: "updatePdfPreview stubLib 1700000000 demoState = Inr s'"
    "annotations s' = annotations demoState"
    "s' = demoState\<lparr>pdfUrl := pdfUrl s', console := console s'\<rparr>" by blast
  have "content s' = content (demoState\<lparr>pdfUrl := pdfUrl s', console := console s'\<rparr>)"
       "previewMode s' = previewMode (demoState\<lparr>pdfUrl := pdfUrl s', console := console s'\<rparr>)"
       "editingId s' = editingId (demoState\<lparr>pdfUrl := pdfUrl s', console := console s'\<rparr>)"
    using s(3) by simp_all
  then have "content s' = ''Hi''" "previewMode s'" "editingId s' = None"
    by (simp_all add: demoState_def initialState_def)
  with s(1,2) show ?thesis by (simp add: demoState_def initialState_def)
qed

subsection \<open>A file that does not load\<close>

text \<open>
  Claim C7, as stated, fails for the preview: on a file the parser rejects,
  \<^const>\<open>updatePdfPreview\<close> completes normally; the exception is printed to the
  console and does not reach the caller.
\<close>

theorem updatePdfPreview_decode_failure_counterexample:
  "PDFDocument_load stubLib 1700000000 ''not a pdf'' = None \<and>
   updatePdfPreview stubLib 1700000000 (demoState\<lparr>pdfFile := Some ''not a pdf''\<rparr>) =
     Inr (demoState\<lparr>pdfFile := Some ''not a pdf'',
            console := [(''Error updating PDF preview:'', DecodeError)]\<rparr>)"
  by (simp add: updatePdfPreview_def previewDocument_def loadAndAnnotate_def PDFDocument_load_def
      stubLib_def demoState_def initialState_def)

text \<open>
  Claim C7, amended. When the file does not load, \<^const>\<open>updatePdfPreview\<close> catches
  the exception and prints it, and leaves the saved annotations and the preview URL as
  they were; \<^const>\<open>downloadPdf\<close> lets the exception reach its caller and downloads
  nothing. Neither produces output.
\<close>

theorem decode_failure_is_caught_or_propagates:
  assumes "pdfFile s = Some src" "PDFDocument_load lib date src = None"
  shows "updatePdfPreview lib date s =
           Inr (s\<lparr>console := console s @ [(''Error updating PDF preview:'', DecodeError)]\<rparr>) \<and>
         downloadPdf lib date True s = (Inl DecodeError, console s) \<and>
         (\<exists>s'. updatePdfPreview lib date s = Inr s' \<and>
                annotations s' = annotations s \<and> pdfUrl s' = pdfUrl s)"
  using assms
  by (simp add: updatePdfPreview_def previewDocument_def loadAndAnnotate_def downloadPdf_def)

theorem decode_failure_is_caught_or_propagates_witness:
  "downloadPdf stubLib 1700000000 True (demoState\<lparr>pdfFile := Some ''not a pdf''\<rparr>) =
     (Inl DecodeError, []) \<and>
   (\<exists>s'. updatePdfPreview stubLib 1700000000 (demoState\<lparr>pdfFile := Some ''not a pdf''\<rparr>) = Inr s' \<and>
          annotations s' = [demoHighlight] \<and> pdfUrl s' = Some ''%PDF-1.4'' \<and>
          console s' = [(''Error updating PDF preview:'', DecodeError)])"
proof -
  have f: "pdfFile (demoState\<lparr>pdfFile := Some ''not a pdf''\<rparr>) = Some ''not a pdf''" by simp
  have l: "PDFDocument_load stubLib 1700000000 ''not a pdf'' = None"
    by (simp add: PDFDocument_load_def stubLib_def)
  from decode_failure_is_caught_or_propagates[OF f l]
  show ?thesis by (simp add: demoState_def initialState_def)
qed

subsection \<open>A signature that does not decode\<close>

text \<open>
  Claim C4. A signature whose payload fails to decode (base64 or PNG) never changes the
  outcome of a render: \<^const>\<open>applyAnnotationToPage\<close> returns normally with the
  document untouched and one more console entry, and the render of a list of
  annotations yields the same document, or the same exception, as the render of the
  list without the failing signatures. So on a document that loads and has a page, with
  all text encodable, the render succeeds, the first page carries exactly the marks of
  the other annotations in order, and \<^const>\<open>downloadPdf\<close> returns the bytes.
\<close>

theorem malformed_signature_is_skipped:
  "fst (loadAndAnnotate lib date src anns con) =
     fst (loadAndAnnotate lib date src (filter (\<lambda>a. \<not> malformedSignature lib a) anns) con) \<and>
   (malformedSignature lib a \<longrightarrow>
      (\<exists>e. applyAnnotationToPage lib a page fnt isPreview d con =
              (Inr d, con @ [(''Error embedding signature:'', e)]))) \<and>
   (pdfFile s = Some src \<and> PDFDocument_load lib date src = Some loaded \<and> pages loaded \<noteq> [] \<and>
    list_all (textEncodable lib) (annotations s) \<longrightarrow>
      (\<exists>d' con'.
         loadAndAnnotate lib date src (annotations s) (console s) =
           (Inr (Some 0, Helvetica, d'), con') \<and>
         firstPageOps d' =
           firstPageOps loaded @
           concat (map (annotationMarks lib False)
                    (filter (\<lambda>a. \<not> malformedSignature lib a) (annotations s))) \<and>
         downloadPdf lib date True s = (Inr (Some (PDFDocument_save lib d')), con')))"
proof -
  have iso: "fst (loadAndAnnotate lib date src anns con) =
     fst (loadAndAnnotate lib date src (filter (\<lambda>a. \<not> malformedSignature lib a) anns) con)"
    by (rule loadAndAnnotate_filter_malformed)
  have skip: "malformedSignature lib a \<longrightarrow>
      (\<exists>e. applyAnnotationToPage lib a page fnt isPreview d con =
              (Inr d, con @ [(''Error embedding signature:'', e)]))"
    using malformedSignature_skipped[of lib a page fnt isPreview d con] by blast
  have ok: "\<exists>d' con'.
         loadAndAnnotate lib date src (annotations s) (console s) =
           (Inr (Some 0, Helvetica, d'), con') \<and>
         firstPageOps d' =
           firstPageOps loaded @
           concat (map (annotationMarks lib False)
                    (filter (\<lambda>a. \<not> malformedSignature lib a) (annotations s))) \<and>
         downloadPdf lib date True s = (Inr (Some (PDFDocument_save lib d')), con')"
    if h: "pdfFile s = Some src" "PDFDocument_load lib date src = Some loaded" "pages loaded \<noteq> []"
      "list_all (textEncodable lib) (annotations s)"
  proof -
    from loadAndAnnotate_marks[OF h(2,3,4), of "console s"]
    obtain d' con' where
      l: "loadAndAnnotate lib date src (annotations s) (console s) = (Inr (Some 0, Helvetica, d'), con')"
      and f: "firstPageOps d' = firstPageOps loaded @ concat (map (annotationMarks lib False) (annotations s))"
      by blast
    have f': "firstPageOps d' = firstPageOps loaded @
        concat (map (annotationMarks lib False) (filter (\<lambda>a. \<not> malformedSignature lib a) (annotations s)))"
      using f by (simp add: marks_filter_malformed)
    have dl: "downloadPdf lib date True s = (Inr (Some (PDFDocument_save lib d')), con')"
      using h(1) l by (simp add: downloadPdf_def)
    from l f' dl show ?thesis by blast
  qed
  from iso skip ok show ?thesis by blast
qed

lemma demoBadSignature_malformed: "malformedSignature stubLib demoBadSignature"
  by (simp add: malformedSignature_def demoBadSignature_def signatureImageBytes_def stubLib_def)

lemma demoHighlight_not_malformed: "\<not> malformedSignature stubLib demoHighlight"
  by (simp add: malformedSignature_def demoHighlight_def)

theorem malformed_signature_is_skipped_witness:
  "(\<exists>e. applyAnnotationToPage stubLib demoBadSignature (Some 0) Helvetica False
          \<lparr>pages = [\<lparr>original = ''%PDF-1.4'', ops = []\<rparr>], fonts = [Helvetica], images = [],
            modificationDate = 1700000000\<rparr> [] =
        (Inr \<lparr>pages = [\<lparr>original = ''%PDF-1.4'', ops = []\<rparr>], fonts = [Helvetica], images = [],
               modificationDate = 1700000000\<rparr>,
         [(''Error embedding signature:'', e)])) \<and>
   (\<exists>d con.
     loadAndAnnotate stubLib 1700000000 ''%PDF-1.4'' [demoBadSignature, demoHighlight] [] =
       (Inr (Some 0, Helvetica, d), con) \<and>
     firstPageOps d = [DrawRectangle 50 50 100 20 (RGB 1 1 0) (1 / 2)] \<and>
     downloadPdf stubLib 1700000000 True
       (initialState\<lparr>pdfFile := Some ''%PDF-1.4'', annotations := [demoBadSignature, demoHighlight]\<rparr>) =
       (Inr (Some (PDFDocument_save stubLib d)), con))"
proof -
  let ?s = "initialState\<lparr>pdfFile := Some ''%PDF-1.4'', annotations := [demoBadSignature, demoHighlight]\<rparr>"
  let ?parsed = "\<lparr>pages = [\<lparr>original = ''%PDF-1.4'', ops = []\<rparr>], fonts = [], images = [],
              modificationDate = 1700000000\<rparr>"
  let ?doc = "\<lparr>pages = [\<lparr>original = ''%PDF-1.4'', ops = []\<rparr>], fonts = [Helvetica], images = [],
             modificationDate = 1700000000\<rparr>"
  have c: "console ?s = []" by (simp add: initialState_def)
  have m1: "annotationMarks stubLib False demoHighlight = [DrawRectangle 50 50 100 20 (RGB 1 1 0) (1 / 2)]"
    by (simp add: annotationMarks_def demoHighlight_def colorOf_yellow)
  have enc: "list_all (textEncodable stubLib) [demoBadSignature, demoHighlight]"
    by (simp add: textEncodable_def demoHighlight_def demoBadSignature_def)
  note inst = malformed_signature_is_skipped[where lib = stubLib and a = demoBadSignature
      and page = "Some 0" and fnt = Helvetica and isPreview = False and d = ?doc and con = "[]"
      and s = ?s and src = "''%PDF-1.4''" and date = 1700000000 and loaded = ?parsed]
  from inst demoBadSignature_malformed
  have 1: "\<exists>e. applyAnnotationToPage stubLib demoBadSignature (Some 0) Helvetica False ?doc [] =
        (Inr ?doc, [(''Error embedding signature:'', e)])"
    by simp
  from inst stub_load[of 1700000000] enc c
  have 2: "\<exists>d con.
     loadAndAnnotate stubLib 1700000000 ''%PDF-1.4'' [demoBadSignature, demoHighlight] [] =
       (Inr (Some 0, Helvetica, d), con) \<and>
     firstPageOps d = [DrawRectangle 50 50 100 20 (RGB 1 1 0) (1 / 2)] \<and>
     downloadPdf stubLib 1700000000 True ?s = (Inr (Some (PDFDocument_save stubLib d)), con)"
    by (simp add: demoBadSignature_malformed demoHighlight_not_malformed m1 firstPageOps_def)
  from 1 2 show ?thesis by blast
qed

subsection \<open>The output depends on the file, the saved annotations and the clock\<close>

lemma stamp_stamp [simp]: "stamp m (stamp k d) = stamp m d"
  by (simp add: stamp_def)

lemma loadAndAnnotate_dated:
  "fst (loadAndAnnotate lib date src anns con) =
     (case parsePdf lib src of
        None \<Rightarrow> Inl DecodeError
      | Some parsed \<Rightarrow>
          map_sum id (\<lambda>d. (getFirstPage parsed, Helvetica, stamp date d))
            (fst (applyAnnotations lib anns (getFirstPage parsed) Helvetica
                    (parsed\<lparr>fonts := fonts parsed @ [Helvetica]\<rparr>) [])))"
proof (cases "parsePdf lib src")
  case None
  then show ?thesis by (simp add: loadAndAnnotate_def PDFDocument_load_def)
next
  case (Some parsed)
  let ?d1 = "parsed\<lparr>fonts := fonts parsed @ [Helvetica]\<rparr>"
  have e: "parsed\<lparr>modificationDate := date, fonts := fonts parsed @ [Helvetica]\<rparr> = stamp date ?d1"
    by (simp add: stamp_def)
  have g: "getFirstPage (parsed\<lparr>modificationDate := date\<rparr>) = getFirstPage parsed"
    by (simp add: getFirstPage_def)
  obtain r c where r: "applyAnnotations lib anns (getFirstPage parsed) Helvetica ?d1 con = (r, c)"
    by (cases "applyAnnotations lib anns (getFirstPage parsed) Helvetica ?d1 con")
  have r0: "fst (applyAnnotations lib anns (getFirstPage parsed) Helvetica ?d1 []) = r"
    using applyAnnotations_console_free[of lib anns "getFirstPage parsed" Helvetica ?d1 "[]" con] r
    by simp
  show ?thesis
    using Some r r0
    by (cases r)
       (simp_all add: loadAndAnnotate_def PDFDocument_load_def embedFont_def g e applyAnnotations_stamp)
qed

lemma previewDocument_without_draft:
  assumes "\<not> previewShown s"
  shows "fst (previewDocument lib date src s) =
           map_sum id (\<lambda>(page, fnt, d). d)
             (fst (loadAndAnnotate lib date src (annotations s) (console s)))"
proof -
  obtain r con where r: "loadAndAnnotate lib date src (annotations s) (console s) = (r, con)"
    by (cases "loadAndAnnotate lib date src (annotations s) (console s)")
  with assms show ?thesis
    by (cases r) (auto simp: previewDocument_def)
qed

lemma downloadPdf_bytes:
  assumes "pdfFile s = Some src"
  shows "fst (downloadPdf lib date True s) =
           map_sum id (\<lambda>(page, fnt, d). Some (PDFDocument_save lib d))
             (fst (loadAndAnnotate lib date src (annotations s) (console s)))"
proof -
  obtain r con where r: "loadAndAnnotate lib date src (annotations s) (console s) = (r, con)"
    by (cases "loadAndAnnotate lib date src (annotations s) (console s)")
  with assms show ?thesis
    by (cases r) (auto simp: downloadPdf_def)
qed

text \<open>
  Claim C1, as stated, fails: \<^verbatim>\<open>PDFDocument.load\<close> stamps the time of the render
  into the document, so two renders of one state that read the clock in different
  seconds hand different documents to the serialiser, and a serialiser that writes
  the date, as the stand-in does, returns different bytes.
\<close>

theorem render_twice_counterexample:
  "fst (downloadPdf stubLib 1700000000 True demoSaved) = Inr (Some ''%PDF-1.4+ /ModDate 1700000000'') \<and>
   fst (downloadPdf stubLib 1700000001 True demoSaved) = Inr (Some ''%PDF-1.4+ /ModDate 1700000001'') \<and>
   fst (downloadPdf stubLib 1700000000 True demoSaved) \<noteq> fst (downloadPdf stubLib 1700000001 True demoSaved) \<and>
   fst (previewDocument stubLib 1700000000 ''%PDF-1.4'' demoSaved) \<noteq>
   fst (previewDocument stubLib 1700000001 ''%PDF-1.4'' demoSaved)"
  by (simp add: downloadPdf_def previewDocument_def previewShown_def loadAndAnnotate_def
      PDFDocument_load_def getFirstPage_def embedFont_def applyAnnotationToPage_def drawOnPage_def
      demoSaved_def demoHighlight_def initialState_def stubLib_def Let_def)

text \<open>
  Claim C1, amended. For a render without a draft, two states that agree on the file
  and the saved annotations, whatever their other fields and consoles, give at one
  reading of the clock the same document or the same exception in
  \<^const>\<open>updatePdfPreview\<close> and the same bytes in \<^const>\<open>downloadPdf\<close>, which are
  the bytes of the preview. At different readings of the clock the documents agree in
  everything but the modification date, which is the reading of the clock.
\<close>

theorem render_without_draft_up_to_clock:
  assumes "pdfFile s1 = Some src" "pdfFile s2 = Some src"
    "annotations s1 = annotations s2"
    "\<not> (previewMode s1 \<and> (content s1 \<noteq> [] \<or> activeTool s1 = Signature))"
    "\<not> (previewMode s2 \<and> (content s2 \<noteq> [] \<or> activeTool s2 = Signature))"
  shows "fst (previewDocument lib date src s1) = fst (previewDocument lib date src s2) \<and>
         fst (downloadPdf lib date True s1) = fst (downloadPdf lib date True s2) \<and>
         fst (downloadPdf lib date True s1) =
           map_sum id (\<lambda>d. Some (PDFDocument_save lib d)) (fst (previewDocument lib date src s1)) \<and>
         map_sum id (stamp 0) (fst (previewDocument lib date1 src s1)) =
           map_sum id (stamp 0) (fst (previewDocument lib date2 src s2)) \<and>
         (\<forall>d. fst (previewDocument lib date src s1) = Inr d \<longrightarrow> modificationDate d = date)"
proof -
  have n1: "\<not> previewShown s1" and n2: "\<not> previewShown s2"
    using assms(4,5) by (simp_all add: previewShown_def)
  have l: "fst (loadAndAnnotate lib date src (annotations s1) (console s1)) =
           fst (loadAndAnnotate lib date src (annotations s2) (console s2))"
    using loadAndAnnotate_console_free[of lib date src "annotations s2" "console s1" "console s2"]
      assms(3) by simp
  have e1: "fst (previewDocument lib date src s1) = fst (previewDocument lib date src s2)"
    using previewDocument_without_draft[OF n1, of lib date src]
      previewDocument_without_draft[OF n2, of lib date src] l by simp
  have e2: "fst (downloadPdf lib date True s1) = fst (downloadPdf lib date True s2)"
    using downloadPdf_bytes[OF assms(1), of lib date] downloadPdf_bytes[OF assms(2), of lib date] l
    by simp
  have e3: "fst (downloadPdf lib date True s1) =
           map_sum id (\<lambda>d. Some (PDFDocument_save lib d)) (fst (previewDocument lib date src s1))"
    using downloadPdf_bytes[OF assms(1), of lib date] previewDocument_without_draft[OF n1, of lib date src]
    by (cases "fst (loadAndAnnotate lib date src (annotations s1) (console s1))") auto
  have p: "fst (previewDocument lib dt src s) =
      (case parsePdf lib src of
        None \<Rightarrow> Inl DecodeError
      | Some parsed \<Rightarrow>
          map_sum id (stamp dt)
            (fst (applyAnnotations lib (annotations s) (getFirstPage parsed) Helvetica
                    (parsed\<lparr>fonts := fonts parsed @ [Helvetica]\<rparr>) [])))"
    if "\<not> previewShown s" for dt s
  proof (cases "parsePdf lib src")
    case None
    then show ?thesis
      using previewDocument_without_draft[OF that, of lib dt src]
      by (simp add: loadAndAnnotate_dated)
  next
    case (Some parsed)
    then show ?thesis
      using previewDocument_without_draft[OF that, of lib dt src]
      by (cases "fst (applyAnnotations lib (annotations s) (getFirstPage parsed) Helvetica
                    (parsed\<lparr>fonts := fonts parsed @ [Helvetica]\<rparr>) [])")
         (simp_all add: loadAndAnnotate_dated)
  qed
  have e4: "map_sum id (stamp 0) (fst (previewDocument lib date1 src s1)) =
            map_sum id (stamp 0) (fst (previewDocument lib date2 src s2))"
  proof (cases "parsePdf lib src")
    case None
    then show ?thesis by (simp add: p[OF n1] p[OF n2])
  next
    case (Some parsed)
    then show ?thesis
      by (cases "fst (applyAnnotations lib (annotations s2) (getFirstPage parsed) Helvetica
                    (parsed\<lparr>fonts := fonts parsed @ [Helvetica]\<rparr>) [])")
         (simp_all add: p[OF n1] p[OF n2] assms(3))
  qed
  have e5: "\<forall>d. fst (previewDocument lib date src s1) = Inr d \<longrightarrow> modificationDate d = date"
  proof (cases "parsePdf lib src")
    case None
    then show ?thesis by (simp add: p[OF n1])
  next
    case (Some parsed)
    then show ?thesis
      by (cases "fst (applyAnnotations lib (annotations s1) (getFirstPage parsed) Helvetica
                    (parsed\<lparr>fonts := fonts parsed @ [Helvetica]\<rparr>) [])")
         (auto simp: p[OF n1] stamp_def)
  qed
  from e1 e2 e3 e4 e5 show ?thesis by blast
qed

theorem render_without_draft_up_to_clock_witness:
  "fst (downloadPdf stubLib 1700000000 True demoSaved) =
   fst (downloadPdf stubLib 1700000000 True
          (demoSaved\<lparr>activeTool := Comment, content := ''Hi'', color := ''#000000'',
             console := [(''Error updating PDF preview:'', DecodeError)]\<rparr>)) \<and>
   map_sum id (stamp 0) (fst (previewDocument stubLib 1700000000 ''%PDF-1.4'' demoSaved)) =
   map_sum id (stamp 0) (fst (previewDocument stubLib 1700000001 ''%PDF-1.4''
          (demoSaved\<lparr>activeTool := Comment, content := ''Hi'', color := ''#000000'',
             console := [(''Error updating PDF preview:'', DecodeError)]\<rparr>)))"
proof -
  let ?s2 = "demoSaved\<lparr>activeTool := Comment, content := ''Hi'', color := ''#000000'',
             console := [(''Error updating PDF preview:'', DecodeError)]\<rparr>"
  have f1: "pdfFile demoSaved = Some ''%PDF-1.4''" and f2: "pdfFile ?s2 = Some ''%PDF-1.4''"
    by (simp_all add: demoSaved_def)
  have a: "annotations demoSaved = annotations ?s2" by simp
  have n1: "\<not> (previewMode demoSaved \<and> (content demoSaved \<noteq> [] \<or> activeTool demoSaved = Signature))"
    by (simp add: demoSaved_def initialState_def)
  have n2: "\<not> (previewMode ?s2 \<and> (content ?s2 \<noteq> [] \<or> activeTool ?s2 = Signature))"
    by (simp add: demoSaved_def initialState_def)
  from render_without_draft_up_to_clock[OF f1 f2 a n1 n2, of stubLib 1700000000 1700000000 1700000001]
  show ?thesis by blast
qed

subsection \<open>The saved annotations\<close>

lemma callUpdatePdfPreview_frame:
  "callUpdatePdfPreview lib date closure s =
     s\<lparr>pdfUrl := pdfUrl (callUpdatePdfPreview lib date closure s),
       console := console (callUpdatePdfPreview lib date closure s)\<rparr>"
proof -
  from updatePdfPreview_frame[of lib date "closure\<lparr>pdfUrl := pdfUrl s, console := console s\<rparr>"]
  obtain rendered where
    "updatePdfPreview lib date (closure\<lparr>pdfUrl := pdfUrl s, console := console s\<rparr>) = Inr rendered"
    by blast
  then show ?thesis by (simp add: callUpdatePdfPreview_def)
qed

lemma callUpdatePdfPreview_fields [simp]:
  "annotations (callUpdatePdfPreview lib date closure s) = annotations s"
  "pdfFile (callUpdatePdfPreview lib date closure s) = pdfFile s"
  "activeTool (callUpdatePdfPreview lib date closure s) = activeTool s"
  "content (callUpdatePdfPreview lib date closure s) = content s"
  "position (callUpdatePdfPreview lib date closure s) = position s"
  "color (callUpdatePdfPreview lib date closure s) = color s"
  "editingId (callUpdatePdfPreview lib date closure s) = editingId s"
  "previewMode (callUpdatePdfPreview lib date closure s) = previewMode s"
  "signatureData (callUpdatePdfPreview lib date closure s) = signatureData s"
  "draggingId (callUpdatePdfPreview lib date closure s) = draggingId s"
  "dragOffset (callUpdatePdfPreview lib date closure s) = dragOffset s"
  by (subst callUpdatePdfPreview_frame, simp)+

lemma callUpdatePdfPreview_pdfUrl [simp]:
  assumes "pdfUrl s \<noteq> None"
  shows "pdfUrl (callUpdatePdfPreview lib date closure s) \<noteq> None"
proof (cases "pdfFile closure")
  case None
  then show ?thesis using assms by (simp add: callUpdatePdfPreview_def updatePdfPreview_def)
next
  case (Some src)
  obtain r con where r: "previewDocument lib date src (closure\<lparr>pdfUrl := pdfUrl s, console := console s\<rparr>) = (r, con)"
    by (cases "previewDocument lib date src (closure\<lparr>pdfUrl := pdfUrl s, console := console s\<rparr>)")
  with Some assms show ?thesis
    by (cases r) (simp_all add: callUpdatePdfPreview_def updatePdfPreview_def)
qed

lemma annotations_cancelEditing [simp]:
  "annotations (cancelEditing lib date closure s) = annotations s"
  by (simp add: cancelEditing_def)

lemma annotations_saveAnnotation:
  "annotations (saveAnnotation lib now date s) =
     (if (content s = [] \<and> activeTool s \<noteq> Signature) \<or> pdfFile s = None then annotations s
      else if truthy (editingId s)
      then map (\<lambda>ann. if Some (ann_id ann) = editingId s then newAnnotation now s else ann)
             (annotations s)
      else annotations s @ [newAnnotation now s])"
  by (simp add: saveAnnotation_def)

lemma annotations_deleteAnnotation [simp]:
  "annotations (deleteAnnotation lib ident date1 date2 s) =
     filter (\<lambda>ann. ann_id ann \<noteq> ident) (annotations s)"
  by (simp add: deleteAnnotation_def Let_def)

lemma annotations_endDragging [simp]: "annotations (endDragging lib date s) = annotations s"
  by (simp add: endDragging_def)

lemma annotations_startEditing [simp]: "annotations (startEditing ident s) = annotations s"
  by (simp add: startEditing_def split: option.splits)

lemma annotations_startDragging [simp]:
  "annotations (startDragging cx cy ident s) = annotations s"
  by (simp add: startDragging_def split: option.splits)

lemma colorSetIffMarked_newAnnotation: "colorSetIffMarked (newAnnotation now s)"
  by (simp add: colorSetIffMarked_def newAnnotation_def)

lemma colorSetIffMarked_saveAnnotation:
  assumes "list_all colorSetIffMarked (annotations s)"
  shows "list_all colorSetIffMarked (annotations (saveAnnotation lib now date s))"
  using assms
  by (auto simp: annotations_saveAnnotation list_all_iff colorSetIffMarked_newAnnotation)

lemma colorSetIffMarked_clickSave:
  assumes "list_all colorSetIffMarked (annotations s)"
  shows "list_all colorSetIffMarked (annotations (clickSave lib now date s))"
  using assms colorSetIffMarked_saveAnnotation[OF assms]
  by (simp add: clickSave_def)

lemma colorSetIffMarked_handleDrag:
  assumes "list_all colorSetIffMarked (annotations s)"
  shows "list_all colorSetIffMarked (annotations (handleDrag cx cy s))"
  using assms
  by (auto simp: handleDrag_def list_all_iff colorSetIffMarked_def)

lemma colorSetIffMarked_step:
  assumes "list_all colorSetIffMarked (annotations s)"
  shows "list_all colorSetIffMarked (annotations (step lib s e))"
proof (cases e)
  case (ClickSave now date)
  with colorSetIffMarked_clickSave[OF assms] show ?thesis by simp
next
  case (HandleDrag cx cy)
  with colorSetIffMarked_handleDrag[OF assms] show ?thesis by simp
next
  case (DeleteAnnotation ident date1 date2)
  with assms show ?thesis by (simp add: list_all_iff)
next
  case (HandlePdfUpload f0)
  then show ?thesis by (simp add: handlePdfUpload_def)
qed (use assms in simp_all)

lemma colorSetIffMarked_foldl:
  assumes "list_all colorSetIffMarked (annotations s)"
  shows "list_all colorSetIffMarked (annotations (foldl (step lib) s events))"
  using assms
proof (induction events arbitrary: s)
  case Nil
  then show ?case by simp
next
  case (Cons e events)
  from Cons.IH[OF colorSetIffMarked_step[OF Cons.prems]] show ?case by simp
qed

lemma demoRun_annotations:
  "annotations (run stubLib
     [HandlePdfUpload ''%PDF-1.4'', SelectTool Highlight, ChangeContent ''area'', ClickPreview,
      ClickSave ''1'' 1700000000,
      SelectTool Text, ChangeContent ''Hi'', ClickPreview, ClickSave ''2'' 1700000060]) =
   [demoHighlight,
    \<lparr>ann_id = ''2'', ann_type = Text, ann_content = ''Hi'',
     ann_position = \<lparr>pos_x = 50, pos_y = 50, pos_width = 100, pos_height = 20\<rparr>,
     ann_color = None, ann_imageData = None\<rparr>]"
  by (simp add: run_def clickSave_def annotations_saveAnnotation handlePdfUpload_def initialState_def
      newAnnotation_def saveAnnotation_def cancelEditing_def demoHighlight_def)

text \<open>
  Claim C9, as stated, fails for the draft: after an upload, typing "Hi" with the text
  tool and a click on Preview, the annotation handed to the compositor is a text
  annotation that carries the colour of the colour input.
\<close>

theorem preview_annotation_color_counterexample:
  "previewShown (run stubLib [HandlePdfUpload ''%PDF-1.4'', ChangeContent ''Hi'', ClickPreview]) \<and>
   ann_type (previewAnnotation
     (run stubLib [HandlePdfUpload ''%PDF-1.4'', ChangeContent ''Hi'', ClickPreview])) = Text \<and>
   ann_color (previewAnnotation
     (run stubLib [HandlePdfUpload ''%PDF-1.4'', ChangeContent ''Hi'', ClickPreview])) = Some ''#FFFF00'' \<and>
   \<not> colorSetIffMarked (previewAnnotation
     (run stubLib [HandlePdfUpload ''%PDF-1.4'', ChangeContent ''Hi'', ClickPreview]))"
  by (simp add: run_def handlePdfUpload_def initialState_def previewShown_def previewAnnotation_def
      colorSetIffMarked_def)

text \<open>
  Claim C9, amended. After any run of the component, every saved annotation has its
  colour set exactly when it is a highlight or an underline. The preview annotation
  always carries the current colour, whatever the tool.
\<close>

theorem saved_annotations_color_invariant:
  "list_all colorSetIffMarked (annotations (run lib events)) \<and>
   ann_color (previewAnnotation s) = Some (color s)"
proof -
  have "list_all colorSetIffMarked (annotations initialState)"
    by (simp add: initialState_def)
  from colorSetIffMarked_foldl[OF this] show ?thesis
    by (simp add: run_def previewAnnotation_def)
qed

theorem saved_annotations_color_invariant_witness:
  "list_all colorSetIffMarked
     [demoHighlight,
      \<lparr>ann_id = ''2'', ann_type = Text, ann_content = ''Hi'',
       ann_position = \<lparr>pos_x = 50, pos_y = 50, pos_width = 100, pos_height = 20\<rparr>,
       ann_color = None, ann_imageData = None\<rparr>] \<and>
   ann_color (previewAnnotation demoState) = Some ''#FFFF00''"
  using saved_annotations_color_invariant[of stubLib
      "[HandlePdfUpload ''%PDF-1.4'', SelectTool Highlight, ChangeContent ''area'', ClickPreview,
        ClickSave ''1'' 1700000000,
        SelectTool Text, ChangeContent ''Hi'', ClickPreview, ClickSave ''2'' 1700000060]" demoState]
  unfolding demoRun_annotations
  by (simp add: demoState_def initialState_def)

text \<open>
  Claim C2. A click on the Save button, the one way \<^verbatim>\<open>saveAnnotation\<close> is called,
  leaves the whole state, and so the saved annotations, unchanged when the content is
  empty and the tool is not the signature tool, when no file is loaded, and when the
  tool is the signature tool and no signature has been drawn. In the first two cases
  \<^const>\<open>saveAnnotation\<close> itself returns the state unchanged.
\<close>

theorem clickSave_commit_invariant:
  "((content s = [] \<and> activeTool s \<noteq> Signature) \<or> pdfFile s = None \<or>
    (activeTool s = Signature \<and> (signatureData s = None \<or> signatureData s = Some []))
      \<longrightarrow> clickSave lib now date s = s) \<and>
   ((content s = [] \<and> activeTool s \<noteq> Signature) \<or> pdfFile s = None
      \<longrightarrow> saveAnnotation lib now date s = s)"
  by (auto simp: saveAnnotation_def clickSave_def)

theorem clickSave_commit_invariant_witness:
  "clickSave stubLib ''1700000000000'' 1700000000 (demoState\<lparr>content := []\<rparr>) =
     demoState\<lparr>content := []\<rparr> \<and>
   clickSave stubLib ''1700000000000'' 1700000000 (demoState\<lparr>activeTool := Signature\<rparr>) =
     demoState\<lparr>activeTool := Signature\<rparr> \<and>
   clickSave stubLib ''1700000000000'' 1700000000 (demoState\<lparr>pdfFile := None\<rparr>) =
     demoState\<lparr>pdfFile := None\<rparr> \<and>
   annotations (clickSave stubLib ''1700000000000'' 1700000000 demoState) =
     [demoHighlight,
      \<lparr>ann_id = ''1700000000000'', ann_type = Text, ann_content = ''Hi'',
       ann_position = \<lparr>pos_x = 10, pos_y = 10, pos_width = 0, pos_height = 0\<rparr>,
       ann_color = None, ann_imageData = None\<rparr>]"
proof -
  have a: "content (demoState\<lparr>content := []\<rparr>) = [] \<and> activeTool (demoState\<lparr>content := []\<rparr>) \<noteq> Signature"
    by (simp add: demoState_def initialState_def)
  have b: "activeTool (demoState\<lparr>activeTool := Signature\<rparr>) = Signature \<and>
           signatureData (demoState\<lparr>activeTool := Signature\<rparr>) = None"
    by (simp add: demoState_def initialState_def)
  have c: "pdfFile (demoState\<lparr>pdfFile := None\<rparr>) = None" by simp
  have d: "annotations (clickSave stubLib ''1700000000000'' 1700000000 demoState) =
     [demoHighlight,
      \<lparr>ann_id = ''1700000000000'', ann_type = Text, ann_content = ''Hi'',
       ann_position = \<lparr>pos_x = 10, pos_y = 10, pos_width = 0, pos_height = 0\<rparr>,
       ann_color = None, ann_imageData = None\<rparr>]"
    by (simp add: clickSave_def annotations_saveAnnotation newAnnotation_def demoState_def
        initialState_def)
  show ?thesis
    using clickSave_commit_invariant[of "demoState\<lparr>content := []\<rparr>" stubLib "''1700000000000''" 1700000000]
      clickSave_commit_invariant[of "demoState\<lparr>activeTool := Signature\<rparr>" stubLib "''1700000000000''" 1700000000]
      clickSave_commit_invariant[of "demoState\<lparr>pdfFile := None\<rparr>" stubLib "''1700000000000''" 1700000000]
      a b c d
    by blast
qed

end
